theory Spec2Isabelle
  imports Complex_Main "HOL-Library.Word" "HOL-Library.Multiset"
begin

section \<open>Data model (shared/schema.ts)\<close>

text \<open>
  Row identifiers are uuid strings drawn by the database (\<open>gen_random_uuid()\<close>). Only
  their equality is ever used, so they are modelled as natural numbers, and the
  generator as a counter \<open>nextId\<close> kept with the tables. Columns that
  \<open>generateAssignments\<close> and \<open>verifySeed\<close> neither read nor write (passwords and
  the timestamps filled in by \<open>now()\<close>) are left out. Of the \<open>proofs\<close> table the model keeps
  the two nullable references, to an assignment and to a team, because they can make the
  database refuse a delete.

  A statement the database refuses raises an error in the caller. The model has the
  refusals that the schema and the text type of PostgreSQL cause for the statements of
  \<open>generateAssignments\<close> and \<open>verifySeed\<close>: foreign keys (declared without cascade) and
  a text parameter that contains the character U+0000. Failures of the connection
  are outside the model.
\<close>

type_synonym ident = nat

datatype challengeDifficulty = easy | medium | hard | team

datatype challengeStatus = not_started | in_progress | completed | validated

datatype auditAction =
  generate_assignments | validate_team_mission | regenerate_assignments | verify_seed

record user =
  u_id :: ident
  u_username :: string
  u_displayName :: string
  u_isAdmin :: bool

record challenge =
  c_id :: ident
  c_title :: string
  c_description :: string
  c_difficulty :: challengeDifficulty
  c_points :: int
  c_needsTarget :: bool
  c_isActive :: bool

record teamRow =
  t_id :: ident
  t_name :: string
  t_identificationMissionTitle :: string
  t_identificationMissionDescription :: string
  t_identificationMissionValidated :: bool
  t_teamChallengeId :: "ident option"

record teamMember =
  tm_id :: ident
  tm_teamId :: ident
  tm_userId :: ident

record assignment =
  a_id :: ident
  a_userId :: ident
  a_challengeId :: ident
  a_targetUserId :: "ident option"
  a_status :: challengeStatus

record assignmentSeed =
  s_id :: ident
  s_seed :: string
  s_seedHash :: string
  s_participantCount :: nat
  s_generatedBy :: ident
  s_isActive :: bool

record proofRow =
  p_id :: ident
  p_userId :: ident
  p_assignmentId :: "ident option"
  p_teamId :: "ident option"

record auditLogEntry =
  al_id :: ident
  al_action :: auditAction
  al_adminId :: ident
  al_details :: string
  al_seedHash :: "string option"

record database =
  users :: "user list"
  challenges :: "challenge list"
  teams :: "teamRow list"
  teamMembers :: "teamMember list"
  assignments :: "assignment list"
  assignmentSeeds :: "assignmentSeed list"
  proofs :: "proofRow list"
  auditLog :: "auditLogEntry list"
  nextId :: nat

text \<open>The exceptions a call can raise: \<open>TypeError\<close> when the code reads a property of
  \<open>undefined\<close>, and the error of the database driver when a statement is refused.\<close>

datatype error = TypeError | DatabaseError

section \<open>Storage operations (server/storage.ts)\<close>

definition getChallengesByDifficulty :: "challengeDifficulty \<Rightarrow> database \<Rightarrow> challenge list" where
  "getChallengesByDifficulty d db =
     filter (\<lambda>c. c_difficulty c = d \<and> c_isActive c = True) (challenges db)"

text \<open>\<open>createTeam\<close> receives name, mission title, mission description and team challenge;
  the validated flag takes its column default \<open>false\<close>. The new row is returned.\<close>

definition createTeam ::
  "string \<Rightarrow> string \<Rightarrow> string \<Rightarrow> ident \<Rightarrow> database \<Rightarrow> teamRow \<times> database" where
  "createTeam nm ttl descr chId db =
     (let newTeam = \<lparr>t_id = nextId db, t_name = nm,
                     t_identificationMissionTitle = ttl,
                     t_identificationMissionDescription = descr,
                     t_identificationMissionValidated = False,
                     t_teamChallengeId = Some chId\<rparr>
      in (newTeam, db\<lparr>teams := teams db @ [newTeam], nextId := Suc (nextId db)\<rparr>))"

definition addTeamMember :: "ident \<Rightarrow> ident \<Rightarrow> database \<Rightarrow> database" where
  "addTeamMember teamId userId db =
     db\<lparr>teamMembers := teamMembers db @
            [\<lparr>tm_id = nextId db, tm_teamId = teamId, tm_userId = userId\<rparr>],
        nextId := Suc (nextId db)\<rparr>"

definition createAssignment ::
  "ident \<Rightarrow> ident \<Rightarrow> ident option \<Rightarrow> challengeStatus \<Rightarrow> database \<Rightarrow> database" where
  "createAssignment userId challengeId targetUserId status db =
     db\<lparr>assignments := assignments db @
            [\<lparr>a_id = nextId db, a_userId = userId, a_challengeId = challengeId,
              a_targetUserId = targetUserId, a_status = status\<rparr>],
        nextId := Suc (nextId db)\<rparr>"

definition createAuditLogEntry ::
  "auditAction \<Rightarrow> ident \<Rightarrow> string \<Rightarrow> string option \<Rightarrow> database \<Rightarrow> database" where
  "createAuditLogEntry act adminId details seedHash db =
     db\<lparr>auditLog := auditLog db @
            [\<lparr>al_id = nextId db, al_action = act, al_adminId = adminId,
              al_details = details, al_seedHash = seedHash\<rparr>],
        nextId := Suc (nextId db)\<rparr>"

text \<open>
  The inserts above are only called by \<open>generateAssignments\<close> with references it has just
  read from, or inserted into, the referenced table (a user of \<open>allUsers\<close>, a challenge of a
  pool, the team just created, the administrator of the seed record already stored), so
  their foreign keys hold and they have no refusal in the model.
\<close>

text \<open>
  \<open>verifySeed\<close>: select the seed rows whose hash equals the candidate, take the first
  one by destructuring, and return \<open>!!seed\<close>: a row is truthy, \<open>undefined\<close> is not. The
  candidate travels to the database as a text parameter, and PostgreSQL refuses a text
  that contains U+0000: the query then raises.
\<close>

definition verifySeed :: "string \<Rightarrow> database \<Rightarrow> error + bool" where
  "verifySeed seedHash db =
     (if CHR 0x00 \<in> set seedHash then Inl DatabaseError
      else Inr (case filter (\<lambda>s. s_seedHash s = seedHash) (assignmentSeeds db) of
                  [] \<Rightarrow> False
                | seed # rest \<Rightarrow> True))"

section \<open>The seed and the stream derived from it\<close>

text \<open>\<open>randomBytes(128).toString('hex')\<close>: two lower-case hexadecimal digits per byte,
  the high nibble first.\<close>

definition hexDigit :: "nat \<Rightarrow> char" where
  "hexDigit n = ''0123456789abcdef'' ! (n mod 16)"

definition hexOfByte :: "8 word \<Rightarrow> string" where
  "hexOfByte b = [hexDigit (unat b div 16), hexDigit (unat b mod 16)]"

definition toStringHex :: "8 word list \<Rightarrow> string" where
  "toStringHex bytes = concat (map hexOfByte bytes)"

text \<open>\<open>parseInt(s, 16)\<close> on a string of the seed: the value of the longest prefix of
  hexadecimal digits, and \<open>NaN\<close> (here \<open>None\<close>) when that prefix is empty. White space,
  signs and a \<open>0x\<close> prefix cannot occur in the output of \<open>toString('hex')\<close>.\<close>

definition hexValue :: "char \<Rightarrow> nat option" where
  "hexValue c =
     (let n = (of_char c :: nat) in
      if 48 \<le> n \<and> n \<le> 57 then Some (n - 48)
      else if 97 \<le> n \<and> n \<le> 102 then Some (n - 87)
      else if 65 \<le> n \<and> n \<le> 70 then Some (n - 55)
      else None)"

fun parseDigits :: "nat option \<Rightarrow> string \<Rightarrow> nat option" where
  "parseDigits acc [] = acc"
| "parseDigits acc (c # cs) =
     (case hexValue c of
        None \<Rightarrow> acc
      | Some v \<Rightarrow> parseDigits (Some ((case acc of None \<Rightarrow> 0 | Some a \<Rightarrow> a) * 16 + v)) cs)"

definition parseInt16 :: "string \<Rightarrow> nat option" where
  "parseInt16 s = parseDigits None s"

definition substr :: "string \<Rightarrow> nat \<Rightarrow> nat \<Rightarrow> string" where
  "substr s start len = take len (drop start s)"

text \<open>
  \<open>seededRandom\<close> reads the closure variable \<open>seedIndex\<close> and advances it by 8; the model
  takes the index and returns the new one. A JavaScript number is a real here, and
  \<open>None\<close> is \<open>NaN\<close>; the IEEE rounding of the one division is not modelled (the parsed
  window is below \<open>2^32\<close> and exact). For the empty seed \<open>seedIndex % 0\<close> is \<open>NaN\<close>, which
  \<open>substr\<close> reads as 0; \<open>drop\<close> on the empty string gives the same empty window.
\<close>

definition seededRandom :: "string \<Rightarrow> nat \<Rightarrow> real option \<times> nat" where
  "seededRandom seed seedIndex =
     (map_option (\<lambda>n. real n / 4294967295)
        (parseInt16 (substr seed (seedIndex mod length seed) 8)),
      seedIndex + 8)"

text \<open>\<open>Math.floor(r * k)\<close> for a draw \<open>r\<close> and a length \<open>k\<close>; draws are never negative.\<close>

definition floorTimes :: "real option \<Rightarrow> nat \<Rightarrow> nat option" where
  "floorTimes r k = map_option (\<lambda>v. nat \<lfloor>v * real k\<rfloor>) r"

text \<open>\<open>xs[j]\<close> for a computed index: \<open>undefined\<close> (here \<open>None\<close>) when the index is \<open>NaN\<close>
  or not below the length.\<close>

definition arrayAt :: "'a list \<Rightarrow> nat option \<Rightarrow> 'a option" where
  "arrayAt xs j =
     (case j of None \<Rightarrow> None
      | Some k \<Rightarrow> if k < length xs then Some (xs ! k) else None)"

section \<open>Shuffle and team formation\<close>

text \<open>
  The array being shuffled can come to hold \<open>undefined\<close>, so its elements are options.
  The destructuring swap \<open>[a[i], a[j]] = [a[j], a[i]]\<close> reads both cells, then writes
  \<open>a[i]\<close>, then \<open>a[j]\<close>. A write at an index not below the length extends the array. An
  index \<open>NaN\<close> names the property \<open>"NaN"\<close> of the array object, which is no element: it
  reads \<open>undefined\<close> until a swap has written it. The array is therefore modelled as its
  elements together with that property. A write beyond the length would leave holes,
  written here as \<open>undefined\<close> cells; the shuffle never makes one, because a draw is at
  most 1 and the index \<open>j\<close> therefore at most \<open>i + 1\<close> (lemma \<open>floorTimes_le\<close>).
\<close>

type_synonym userArray = "user option list \<times> user option"

definition cell :: "userArray \<Rightarrow> nat option \<Rightarrow> user option" where
  "cell a j =
     (case j of None \<Rightarrow> snd a
      | Some k \<Rightarrow> if k < length (fst a) then fst a ! k else None)"

definition arraySet :: "userArray \<Rightarrow> nat option \<Rightarrow> user option \<Rightarrow> userArray" where
  "arraySet a j v =
     (case j of None \<Rightarrow> (fst a, v)
      | Some k \<Rightarrow> (if k < length (fst a) then (fst a)[k := v]
                   else fst a @ replicate (k - length (fst a)) None @ [v],
                   snd a))"

definition swapCells :: "userArray \<Rightarrow> nat \<Rightarrow> nat option \<Rightarrow> userArray" where
  "swapCells a i j =
     (let aj = cell a j; ai = cell a (Some i)
      in arraySet (arraySet a (Some i) aj) j ai)"

text \<open>\<open>for (let i = length - 1; i > 0; i--)\<close>: the first argument is the current \<open>i\<close>.\<close>

fun shuffleLoop :: "string \<Rightarrow> nat \<Rightarrow> userArray \<Rightarrow> nat \<Rightarrow> userArray \<times> nat" where
  "shuffleLoop seed 0 a seedIndex = (a, seedIndex)"
| "shuffleLoop seed (Suc i) a seedIndex =
     (case seededRandom seed seedIndex of
        (r, seedIndex') \<Rightarrow>
          shuffleLoop seed i (swapCells a (Suc i) (floorTimes r (Suc i + 1))) seedIndex')"

text \<open>\<open>for (let i = 0; i < length; i += 3)\<close>; \<open>u.id\<close> on an \<open>undefined\<close> element raises.\<close>

function teamLoop :: "user option list \<Rightarrow> nat \<Rightarrow> ident list list \<Rightarrow> error + ident list list" where
  "teamLoop shuffledUsers i teamAssignments =
     (if i < length shuffledUsers then
        (let teamSize = min 3 (length shuffledUsers - i);
             members = take teamSize (drop i shuffledUsers)
         in case those members of
              None \<Rightarrow> Inl TypeError
            | Some us \<Rightarrow> teamLoop shuffledUsers (i + 3) (teamAssignments @ [map u_id us]))
      else Inr teamAssignments)"
  by pat_completeness auto
termination
  by (relation "measure (\<lambda>(a, i, acc). length a - i)") auto

declare teamLoop.simps [simp del]

section \<open>Teams and their identification missions\<close>

text \<open>The fixed pool of missions, as (title, description). Accented letters are single
  UTF-16 units in the source, written here by their code.\<close>

definition identificationMissions :: "(string \<times> string) list" where
  "identificationMissions =
     [(''Retrouvez-vous au march'' @ [CHR 0xE9] @ '' de Saint-Martin'',
       ''Rendez-vous ensemble au march'' @ [CHR 0xE9] @ '' de Saint-Martin-de-R'' @ [CHR 0xE9] @
       '' entre 9h et 11h. Prenez une photo de groupe devant l'' @ [CHR 0x27] @ ''entr'' @
       [CHR 0xE9] @ ''e principale.''),
      (''Rassemblement au Phare des Baleines'',
       ''Retrouvez-vous tous au pied du Phare des Baleines. Prenez une photo de groupe avec le phare en arri'' @
       [CHR 0xE8] @ ''re-plan.''),
      (''R'' @ [CHR 0xE9] @ ''union '' @ [CHR 0xE0] @ '' la Plage de la Conche'',
       ''Rendez-vous sur la plage de la Conche des Baleines. Prenez une photo de groupe sur le sable.'')]"

text \<open>Decimal rendering of a number inside a template string.\<close>

fun showNat :: "nat \<Rightarrow> string" where
  "showNat n =
     (if n < 10 then [char_of (48 + n)]
      else showNat (n div 10) @ [char_of (48 + n mod 10)])"

declare showNat.simps [simp del]

definition teamName :: "nat \<Rightarrow> string" where
  "teamName i = [CHR 0xC9] @ ''quipe #'' @ showNat (i + 1)"

text \<open>
  \<open>for (let i = 0; i < teamAssignments.length; i++)\<close>, over the teams still to create.
  Both draws are made before the row is built; \<open>mission.title\<close> and \<open>teamChallenge.id\<close>
  raise on \<open>undefined\<close>, before anything is inserted for that team.
\<close>

fun createTeams ::
  "string \<Rightarrow> challenge list \<Rightarrow> ident list list \<Rightarrow> nat \<Rightarrow> nat \<Rightarrow> database
     \<Rightarrow> error option \<times> nat \<times> database" where
  "createTeams seed teamChallenges [] i seedIndex db = (None, seedIndex, db)"
| "createTeams seed teamChallenges (memberIds # rest) i seedIndex db =
     (case seededRandom seed seedIndex of
        (r1, seedIndex1) \<Rightarrow>
          (case seededRandom seed seedIndex1 of
             (r2, seedIndex2) \<Rightarrow>
               (case arrayAt identificationMissions
                       (floorTimes r1 (length identificationMissions)) of
                  None \<Rightarrow> (Some TypeError, seedIndex2, db)
                | Some mission \<Rightarrow>
                    (case arrayAt teamChallenges (floorTimes r2 (length teamChallenges)) of
                       None \<Rightarrow> (Some TypeError, seedIndex2, db)
                     | Some teamChallenge \<Rightarrow>
                         (case createTeam (teamName i) (fst mission) (snd mission)
                                 (c_id teamChallenge) db of
                            (newTeam, db') \<Rightarrow>
                              createTeams seed teamChallenges rest (Suc i) seedIndex2
                                (fold (\<lambda>userId. addTeamMember (t_id newTeam) userId)
                                   memberIds db'))))))"

section \<open>Individual challenges\<close>

text \<open>
  \<open>[...pool].sort(() => seededRandom() - 0.5)\<close>. The comparator ignores its arguments, so
  it is no consistent ordering, and ECMAScript then leaves the order of the result and
  the number of comparator calls to the engine. The model is an insertion sort that asks
  the comparator once per comparison and puts the new element first when the answer is
  negative (\<open>NaN\<close> counts as zero). The theorems below use only that the result is a
  rearrangement of the pool.
\<close>

fun insertSeeded :: "string \<Rightarrow> 'a \<Rightarrow> 'a list \<Rightarrow> nat \<Rightarrow> 'a list \<times> nat" where
  "insertSeeded seed x [] seedIndex = ([x], seedIndex)"
| "insertSeeded seed x (y # ys) seedIndex =
     (case seededRandom seed seedIndex of
        (r, seedIndex') \<Rightarrow>
          if (case r of None \<Rightarrow> False | Some v \<Rightarrow> v - 0.5 < 0) then (x # y # ys, seedIndex')
          else (case insertSeeded seed x ys seedIndex' of
                  (zs, seedIndex'') \<Rightarrow> (y # zs, seedIndex'')))"

fun sortLoop :: "string \<Rightarrow> 'a list \<Rightarrow> 'a list \<Rightarrow> nat \<Rightarrow> 'a list \<times> nat" where
  "sortLoop seed [] placed seedIndex = (placed, seedIndex)"
| "sortLoop seed (x # xs) placed seedIndex =
     (case insertSeeded seed x placed seedIndex of
        (placed', seedIndex') \<Rightarrow> sortLoop seed xs placed' seedIndex')"

definition arraySort :: "string \<Rightarrow> 'a list \<Rightarrow> nat \<Rightarrow> 'a list \<times> nat" where
  "arraySort seed xs seedIndex = sortLoop seed xs [] seedIndex"

text \<open>The loop over the two easy challenges of a user: no target is looked at.\<close>

fun assignEasy :: "user \<Rightarrow> challenge list \<Rightarrow> database \<Rightarrow> database" where
  "assignEasy usr [] db = db"
| "assignEasy usr (c # cs) db =
     assignEasy usr cs (createAssignment (u_id usr) (c_id c) None not_started db)"

text \<open>The loop over the two medium challenges of a user, and the identical loop over the
  two hard ones. \<open>possibleTargets[...].id\<close> raises when the index misses the array.\<close>

fun assignWithTarget ::
  "string \<Rightarrow> user list \<Rightarrow> user \<Rightarrow> challenge list \<Rightarrow> nat \<Rightarrow> database
     \<Rightarrow> error option \<times> nat \<times> database" where
  "assignWithTarget seed allUsers usr [] seedIndex db = (None, seedIndex, db)"
| "assignWithTarget seed allUsers usr (c # cs) seedIndex db =
     (if c_needsTarget c then
        (let possibleTargets = filter (\<lambda>u. u_id u \<noteq> u_id usr) allUsers
         in case seededRandom seed seedIndex of
              (r, seedIndex') \<Rightarrow>
                (case arrayAt possibleTargets (floorTimes r (length possibleTargets)) of
                   None \<Rightarrow> (Some TypeError, seedIndex', db)
                 | Some tgt \<Rightarrow>
                     assignWithTarget seed allUsers usr cs seedIndex'
                       (createAssignment (u_id usr) (c_id c) (Some (u_id tgt)) not_started db)))
      else assignWithTarget seed allUsers usr cs seedIndex
             (createAssignment (u_id usr) (c_id c) None not_started db))"

text \<open>\<open>for (const user of allUsers)\<close>, over the users still to serve.\<close>

fun assignUsers ::
  "string \<Rightarrow> user list \<Rightarrow> challenge list \<Rightarrow> challenge list \<Rightarrow> challenge list \<Rightarrow> user list
     \<Rightarrow> nat \<Rightarrow> database \<Rightarrow> error option \<times> nat \<times> database" where
  "assignUsers seed allUsers easyChallenges mediumChallenges hardChallenges [] seedIndex db =
     (None, seedIndex, db)"
| "assignUsers seed allUsers easyChallenges mediumChallenges hardChallenges (usr # rest)
       seedIndex db =
     (case arraySort seed easyChallenges seedIndex of
        (sortedEasy, seedIndex1) \<Rightarrow>
          (case arraySort seed mediumChallenges seedIndex1 of
             (sortedMedium, seedIndex2) \<Rightarrow>
               (case assignWithTarget seed allUsers usr (take 2 sortedMedium) seedIndex2
                       (assignEasy usr (take 2 sortedEasy) db) of
                  (Some e, seedIndex3, db2) \<Rightarrow> (Some e, seedIndex3, db2)
                | (None, seedIndex3, db2) \<Rightarrow>
                    (case arraySort seed hardChallenges seedIndex3 of
                       (sortedHard, seedIndex4) \<Rightarrow>
                         (case assignWithTarget seed allUsers usr (take 2 sortedHard)
                                 seedIndex4 db2 of
                            (Some e, seedIndex5, db3) \<Rightarrow> (Some e, seedIndex5, db3)
                          | (None, seedIndex5, db3) \<Rightarrow>
                              assignUsers seed allUsers easyChallenges mediumChallenges
                                hardChallenges rest seedIndex5 db3)))))"

section \<open>generateAssignments\<close>

text \<open>
  The two sources of entropy and the hash are inputs: \<open>randomBytes128\<close> is the buffer
  returned by \<open>randomBytes(128)\<close>, and \<open>sha256hex\<close> stands for
  \<open>createHash('sha256').update(_).digest('hex')\<close>. The result is what the call returns or
  raises, together with the database it leaves behind: there is no transaction, so nothing
  is rolled back. The reads of users and challenges at the start change nothing and are
  the \<open>let\<close> bindings; the statements follow in the order of the source.
\<close>

text \<open>
  The four statements under \<open>// Clear existing assignments\<close>, each committed on its own.
  \<open>proofs.assignment_id\<close> and \<open>proofs.team_id\<close> are foreign keys without cascade: the
  database refuses to delete a row that a proof refers to, and a refused statement changes
  nothing. Nothing refers to \<open>team_members\<close> or to \<open>assignment_seeds\<close>.
\<close>

definition assignmentsReferenced :: "database \<Rightarrow> bool" where
  "assignmentsReferenced db \<longleftrightarrow>
     (\<exists>p\<in>set (proofs db). \<exists>a\<in>set (assignments db). p_assignmentId p = Some (a_id a))"

definition teamsReferenced :: "database \<Rightarrow> bool" where
  "teamsReferenced db \<longleftrightarrow>
     (\<exists>p\<in>set (proofs db). \<exists>t\<in>set (teams db). p_teamId p = Some (t_id t))"

definition deleteAssignments :: "database \<Rightarrow> error + database" where
  "deleteAssignments db =
     (if assignmentsReferenced db then Inl DatabaseError else Inr (db\<lparr>assignments := []\<rparr>))"

definition deleteTeamMembers :: "database \<Rightarrow> database" where
  "deleteTeamMembers db = db\<lparr>teamMembers := []\<rparr>"

definition deleteTeams :: "database \<Rightarrow> error + database" where
  "deleteTeams db =
     (if teamsReferenced db then Inl DatabaseError else Inr (db\<lparr>teams := []\<rparr>))"

definition deactivateSeeds :: "database \<Rightarrow> database" where
  "deactivateSeeds db =
     db\<lparr>assignmentSeeds := map (\<lambda>s. s\<lparr>s_isActive := False\<rparr>) (assignmentSeeds db)\<rparr>"

text \<open>The insert of the new seed record, which is returned. \<open>generated_by\<close> is a foreign key
  to \<open>users.id\<close>: the database refuses an administrator that is no stored user.\<close>

definition insertSeed ::
  "string \<Rightarrow> string \<Rightarrow> nat \<Rightarrow> ident \<Rightarrow> database \<Rightarrow> error + assignmentSeed \<times> database" where
  "insertSeed seed seedHash participantCount adminId db =
     (if adminId \<in> u_id ` set (users db) then
        (let seedRecord = \<lparr>s_id = nextId db, s_seed = seed, s_seedHash = seedHash,
                           s_participantCount = participantCount, s_generatedBy = adminId,
                           s_isActive = True\<rparr>
         in Inr (seedRecord,
                 db\<lparr>assignmentSeeds := assignmentSeeds db @ [seedRecord],
                    nextId := Suc (nextId db)\<rparr>))
      else Inl DatabaseError)"

definition auditDetails :: "nat \<Rightarrow> string" where
  "auditDetails n =
     ''Assignations g'' @ [CHR 0xE9] @ ''n'' @ [CHR 0xE9] @ ''r'' @ [CHR 0xE9] @ ''es pour '' @
     showNat n @ '' participants''"

definition generateAssignments ::
  "(string \<Rightarrow> string) \<Rightarrow> 8 word list \<Rightarrow> ident \<Rightarrow> database
     \<Rightarrow> (error + assignmentSeed) \<times> database" where
  "generateAssignments sha256hex randomBytes128 adminId db =
     (let seed = toStringHex randomBytes128;
          seedHash = sha256hex seed;
          allUsers = filter (\<lambda>u. u_isAdmin u = False) (users db);
          easyChallenges = getChallengesByDifficulty easy db;
          mediumChallenges = getChallengesByDifficulty medium db;
          hardChallenges = getChallengesByDifficulty hard db;
          teamChallenges = getChallengesByDifficulty team db
      in case deleteAssignments db of
           Inl e \<Rightarrow> (Inl e, db)
         | Inr dbA \<Rightarrow>
         (case deleteTeams (deleteTeamMembers dbA) of
           Inl e \<Rightarrow> (Inl e, deleteTeamMembers dbA)
         | Inr dbT \<Rightarrow>
         (case insertSeed seed seedHash (length allUsers) adminId (deactivateSeeds dbT) of
           Inl e \<Rightarrow> (Inl e, deactivateSeeds dbT)
         | Inr (seedRecord, db1) \<Rightarrow>
             (case shuffleLoop seed (length allUsers - 1) (map Some allUsers, None) 0 of
                (shuffledUsers, seedIndex1) \<Rightarrow>
                  (case teamLoop (fst shuffledUsers) 0 [] of
                     Inl e \<Rightarrow> (Inl e, db1)
                   | Inr teamAssignments \<Rightarrow>
                       (case createTeams seed teamChallenges teamAssignments 0 seedIndex1 db1 of
                          (Some e, seedIndex2, db2) \<Rightarrow> (Inl e, db2)
                        | (None, seedIndex2, db2) \<Rightarrow>
                            (case assignUsers seed allUsers easyChallenges mediumChallenges
                                    hardChallenges allUsers seedIndex2 db2 of
                               (Some e, seedIndex3, db3) \<Rightarrow> (Inl e, db3)
                             | (None, seedIndex3, db3) \<Rightarrow>
                                 (Inr seedRecord,
                                  createAuditLogEntry generate_assignments adminId
                                    (auditDetails (length allUsers)) (Some seedHash) db3))))))))"

section \<open>Runs, views and sample data used by the theorems\<close>

text \<open>Successive calls: each call starts from the database the previous one left,
  whether it returned or raised.\<close>

fun generateMany :: "(string \<Rightarrow> string) \<Rightarrow> (8 word list \<times> ident) list \<Rightarrow> database \<Rightarrow> database" where
  "generateMany sha256hex [] db = db"
| "generateMany sha256hex (call # calls) db =
     generateMany sha256hex calls
       (snd (generateAssignments sha256hex (fst call) (snd call) db))"

text \<open>
  The database accepts the statements of a call when no proof refers to an assignment or
  to a team that is to be deleted, and the administrator is a stored user. The seed record
  the call then stores, and the database right after that insert.
\<close>

definition databaseAccepts :: "ident \<Rightarrow> database \<Rightarrow> bool" where
  "databaseAccepts adminId db \<longleftrightarrow>
     \<not> assignmentsReferenced db \<and> \<not> teamsReferenced db \<and> adminId \<in> u_id ` set (users db)"

definition storedSeedRecord ::
  "(string \<Rightarrow> string) \<Rightarrow> 8 word list \<Rightarrow> ident \<Rightarrow> database \<Rightarrow> assignmentSeed" where
  "storedSeedRecord sha256hex rnd adminId db =
     \<lparr>s_id = nextId db, s_seed = toStringHex rnd, s_seedHash = sha256hex (toStringHex rnd),
      s_participantCount = length (filter (\<lambda>u. u_isAdmin u = False) (users db)),
      s_generatedBy = adminId, s_isActive = True\<rparr>"

definition afterSeedInsert ::
  "(string \<Rightarrow> string) \<Rightarrow> 8 word list \<Rightarrow> ident \<Rightarrow> database \<Rightarrow> database" where
  "afterSeedInsert sha256hex rnd adminId db =
     db\<lparr>assignments := [], teamMembers := [], teams := [],
        assignmentSeeds := map (\<lambda>s. s\<lparr>s_isActive := False\<rparr>) (assignmentSeeds db) @
                           [storedSeedRecord sha256hex rnd adminId db],
        nextId := Suc (nextId db)\<rparr>"

text \<open>No proof refers to an assignment or to a team: no delete can be refused.\<close>

definition proofsReferNothing :: "database \<Rightarrow> bool" where
  "proofsReferNothing db \<longleftrightarrow>
     (\<forall>p\<in>set (proofs db). p_assignmentId p = None \<and> p_teamId p = None)"

text \<open>
  A seed string all of whose draws are below 1: it is not empty, its length is a multiple
  of 8, and none of its aligned windows of 8 digits is \<open>ffffffff\<close> (or unreadable).
\<close>

definition drawsBelowOne :: "string \<Rightarrow> bool" where
  "drawsBelowOne seed \<longleftrightarrow>
     seed \<noteq> [] \<and> length seed mod 8 = 0 \<and>
     list_all (\<lambda>k. case fst (seededRandom seed (8 * k)) of None \<Rightarrow> False | Some v \<Rightarrow> v < 1)
       [0..<length seed div 8]"

text \<open>What an assignment row looks like when it has just been created correctly.\<close>

definition freshAssignment :: "assignment \<Rightarrow> bool" where
  "freshAssignment a \<longleftrightarrow> a_status a = not_started \<and> a_targetUserId a \<noteq> Some (a_userId a)"

text \<open>The challenges handed to one user, in order of creation, and those of them that
  come from a given pool.\<close>

definition challengesOf :: "ident \<Rightarrow> database \<Rightarrow> ident list" where
  "challengesOf userId db =
     map a_challengeId (filter (\<lambda>a. a_userId a = userId) (assignments db))"

definition challengesOfIn :: "ident \<Rightarrow> challenge list \<Rightarrow> database \<Rightarrow> ident list" where
  "challengesOfIn userId pool db =
     filter (\<lambda>cid. cid \<in> c_id ` set pool) (challengesOf userId db)"

text \<open>The sizes of the teams, by joining memberships to teams on the team id.\<close>

definition teamSizes :: "database \<Rightarrow> nat list" where
  "teamSizes db =
     map (\<lambda>t. length (filter (\<lambda>m. tm_teamId m = t_id t) (teamMembers db))) (teams db)"

text \<open>The outcome of a generation without the identifiers drawn by the database: the
  teams with their members, and the assignments.\<close>

definition teamComposition ::
  "database \<Rightarrow> (string \<times> string \<times> string \<times> bool \<times> ident option \<times> ident list) list" where
  "teamComposition db =
     map (\<lambda>t. (t_name t, t_identificationMissionTitle t, t_identificationMissionDescription t,
               t_identificationMissionValidated t, t_teamChallengeId t,
               map tm_userId (filter (\<lambda>m. tm_teamId m = t_id t) (teamMembers db))))
         (teams db)"

definition assignmentList ::
  "database \<Rightarrow> (ident \<times> ident \<times> ident option \<times> challengeStatus) list" where
  "assignmentList db =
     map (\<lambda>a. (a_userId a, a_challengeId a, a_targetUserId a, a_status a)) (assignments db)"

definition raised :: "(error + assignmentSeed) \<times> database \<Rightarrow> error option" where
  "raised res = (case fst res of Inl e \<Rightarrow> Some e | Inr seedRecord \<Rightarrow> None)"

text \<open>
  Two databases hold the same generated rows up to the identifiers drawn by the database
  when the identifiers of the second are those of the first moved by a constant.
\<close>

definition idRel :: "int \<Rightarrow> ident \<Rightarrow> ident \<Rightarrow> bool" where
  "idRel delta i j \<longleftrightarrow> int j = int i + delta"

definition teamRel :: "int \<Rightarrow> teamRow \<Rightarrow> teamRow \<Rightarrow> bool" where
  "teamRel delta t1 t2 \<longleftrightarrow>
     idRel delta (t_id t1) (t_id t2) \<and> t_name t1 = t_name t2 \<and>
     t_identificationMissionTitle t1 = t_identificationMissionTitle t2 \<and>
     t_identificationMissionDescription t1 = t_identificationMissionDescription t2 \<and>
     t_identificationMissionValidated t1 = t_identificationMissionValidated t2 \<and>
     t_teamChallengeId t1 = t_teamChallengeId t2"

definition memberRel :: "int \<Rightarrow> teamMember \<Rightarrow> teamMember \<Rightarrow> bool" where
  "memberRel delta m1 m2 \<longleftrightarrow>
     idRel delta (tm_teamId m1) (tm_teamId m2) \<and> tm_userId m1 = tm_userId m2"

definition sameUpToIds :: "int \<Rightarrow> database \<Rightarrow> database \<Rightarrow> bool" where
  "sameUpToIds delta d1 d2 \<longleftrightarrow>
     list_all2 (teamRel delta) (teams d1) (teams d2) \<and>
     list_all2 (memberRel delta) (teamMembers d1) (teamMembers d2) \<and>
     assignmentList d1 = assignmentList d2 \<and>
     idRel delta (nextId d1) (nextId d2)"

text \<open>Sample data: four participants and an administrator; two active challenges in each
  individual category, some of which need a target, and one team challenge; rows left by
  an earlier generation.\<close>

definition mkUser :: "ident \<Rightarrow> bool \<Rightarrow> user" where
  "mkUser n adm = \<lparr>u_id = n, u_username = ''user'', u_displayName = ''User'', u_isAdmin = adm\<rparr>"

definition mkChallenge :: "ident \<Rightarrow> challengeDifficulty \<Rightarrow> bool \<Rightarrow> bool \<Rightarrow> challenge" where
  "mkChallenge n d tgt act =
     \<lparr>c_id = n, c_title = ''title'', c_description = ''text'', c_difficulty = d,
      c_points = 1, c_needsTarget = tgt, c_isActive = act\<rparr>"

definition sampleChallenges :: "challenge list" where
  "sampleChallenges =
     [mkChallenge 10 easy True True, mkChallenge 11 easy False True,
      mkChallenge 12 easy False False,
      mkChallenge 20 medium True True, mkChallenge 21 medium False True,
      mkChallenge 30 hard False True, mkChallenge 31 hard True True,
      mkChallenge 40 team False True]"

definition sampleDb :: database where
  "sampleDb =
     \<lparr>users = [mkUser 1 False, mkUser 2 False, mkUser 3 False, mkUser 4 False, mkUser 99 True],
      challenges = sampleChallenges,
      teams = [\<lparr>t_id = 50, t_name = ''old'', t_identificationMissionTitle = ''old'',
                t_identificationMissionDescription = ''old'',
                t_identificationMissionValidated = True, t_teamChallengeId = Some 40\<rparr>],
      teamMembers = [\<lparr>tm_id = 51, tm_teamId = 50, tm_userId = 1\<rparr>],
      assignments = [\<lparr>a_id = 52, a_userId = 1, a_challengeId = 10, a_targetUserId = None,
                      a_status = completed\<rparr>],
      assignmentSeeds = [\<lparr>s_id = 53, s_seed = ''00'', s_seedHash = ''abc'',
                          s_participantCount = 1, s_generatedBy = 99, s_isActive = True\<rparr>],
      proofs = [],
      auditLog = [],
      nextId = 100\<rparr>"

text \<open>The same bank with a single easy challenge, with no easy challenge, and with no team
  challenge.\<close>

definition oneEasyDb :: database where
  "oneEasyDb = sampleDb\<lparr>challenges := filter (\<lambda>c. c_id c \<noteq> 11) sampleChallenges\<rparr>"

definition noEasyDb :: database where
  "noEasyDb = sampleDb\<lparr>challenges := filter (\<lambda>c. c_difficulty c \<noteq> easy) sampleChallenges\<rparr>"

definition noTeamChallengeDb :: database where
  "noTeamChallengeDb = sampleDb\<lparr>challenges := filter (\<lambda>c. c_id c \<noteq> 40) sampleChallenges\<rparr>"

text \<open>Another database with the same participants and the same active challenges, but
  another administrator, no rows of an earlier generation and another identifier counter.\<close>

definition otherDb :: database where
  "otherDb =
     sampleDb\<lparr>users := mkUser 98 True # users sampleDb,
              challenges := challenges sampleDb @ [mkChallenge 41 team False False],
              teams := [], teamMembers := [], assignments := [], assignmentSeeds := [],
              nextId := 7\<rparr>"

text \<open>The sample database with a proof that refers to its stored assignment.\<close>

definition provenDb :: database where
  "provenDb =
     sampleDb\<lparr>proofs := [\<lparr>p_id = 54, p_userId = 1, p_assignmentId = Some 52, p_teamId = None\<rparr>]\<rparr>"

text \<open>Two buffers \<open>randomBytes(128)\<close> can return: every draw is \<open>4/15\<close> with the first and
  \<open>1\<close> with the second.\<close>

definition bytes44 :: "8 word list" where
  "bytes44 = replicate 128 0x44"

definition bytesFF :: "8 word list" where
  "bytesFF = replicate 128 0xFF"

definition sampleHash :: "string \<Rightarrow> string" where
  "sampleHash s = take 8 s"

section \<open>Lemmas\<close>

subsection \<open>Basic facts\<close>

lemma createAssignment_fields [simp]:
  "assignments (createAssignment uid cid tgt st db) =
     assignments db @ [\<lparr>a_id = nextId db, a_userId = uid, a_challengeId = cid,
                        a_targetUserId = tgt, a_status = st\<rparr>]"
  "teams (createAssignment uid cid tgt st db) = teams db"
  "teamMembers (createAssignment uid cid tgt st db) = teamMembers db"
  "assignmentSeeds (createAssignment uid cid tgt st db) = assignmentSeeds db"
  "users (createAssignment uid cid tgt st db) = users db"
  "proofs (createAssignment uid cid tgt st db) = proofs db"
  "nextId (createAssignment uid cid tgt st db) = Suc (nextId db)"
  by (simp_all add: createAssignment_def)

lemma addTeamMember_fields [simp]:
  "teamMembers (addTeamMember tid uid db) =
     teamMembers db @ [\<lparr>tm_id = nextId db, tm_teamId = tid, tm_userId = uid\<rparr>]"
  "teams (addTeamMember tid uid db) = teams db"
  "assignments (addTeamMember tid uid db) = assignments db"
  "assignmentSeeds (addTeamMember tid uid db) = assignmentSeeds db"
  "users (addTeamMember tid uid db) = users db"
  "proofs (addTeamMember tid uid db) = proofs db"
  "nextId (addTeamMember tid uid db) = Suc (nextId db)"
  by (simp_all add: addTeamMember_def)

lemma fold_addTeamMember_frame [simp]:
  "teams (fold (\<lambda>uid. addTeamMember tid uid) uids db) = teams db"
  "assignments (fold (\<lambda>uid. addTeamMember tid uid) uids db) = assignments db"
  "assignmentSeeds (fold (\<lambda>uid. addTeamMember tid uid) uids db) = assignmentSeeds db"
  "users (fold (\<lambda>uid. addTeamMember tid uid) uids db) = users db"
  "proofs (fold (\<lambda>uid. addTeamMember tid uid) uids db) = proofs db"
  by (induction uids arbitrary: db) simp_all

lemma createTeam_fields [simp]:
  "assignments (snd (createTeam nm ttl descr ch db)) = assignments db"
  "assignmentSeeds (snd (createTeam nm ttl descr ch db)) = assignmentSeeds db"
  "teamMembers (snd (createTeam nm ttl descr ch db)) = teamMembers db"
  "nextId (snd (createTeam nm ttl descr ch db)) = Suc (nextId db)"
  by (simp_all add: createTeam_def Let_def)

lemma createTeam_result:
  "createTeam nm ttl descr ch db = (t, db') \<Longrightarrow>
     assignments db' = assignments db \<and> assignmentSeeds db' = assignmentSeeds db \<and>
     users db' = users db \<and> proofs db' = proofs db \<and>
     teamMembers db' = teamMembers db \<and> nextId db' = Suc (nextId db) \<and>
     teams db' = teams db @ [t] \<and> t_id t = nextId db"
  by (auto simp: createTeam_def Let_def)

lemma arrayAt_mem: "arrayAt xs j = Some x \<Longrightarrow> x \<in> set xs"
  by (auto simp: arrayAt_def split: option.splits if_splits)

lemma arrayAt_Nil [simp]: "arrayAt [] j = None"
  by (simp add: arrayAt_def split: option.splits)

subsection \<open>What the loops leave alone, and what they raise\<close>

lemma createTeams_frame:
  "createTeams seed tcs tas i si db = (e, si', db') \<Longrightarrow>
     assignments db' = assignments db \<and> assignmentSeeds db' = assignmentSeeds db \<and>
     users db' = users db \<and> proofs db' = proofs db"
proof (induction tas arbitrary: i si db)
  case Nil
  then show ?case by simp
next
  case (Cons ms rest)
  then show ?case
    by (fastforce split: prod.splits option.splits dest: createTeam_result)
qed

lemma assignEasy_seeds [simp]:
  "assignmentSeeds (assignEasy usr cs db) = assignmentSeeds db"
  "users (assignEasy usr cs db) = users db"
  "proofs (assignEasy usr cs db) = proofs db"
  by (induction cs arbitrary: db) simp_all

lemma assignWithTarget_seeds:
  "assignWithTarget seed allUsers usr cs si db = (e, si', db') \<Longrightarrow>
     assignmentSeeds db' = assignmentSeeds db \<and> users db' = users db \<and> proofs db' = proofs db"
proof (induction cs arbitrary: si db)
  case Nil
  then show ?case by simp
next
  case (Cons c cs)
  then show ?case
    by (auto simp: Let_def split: prod.splits option.splits if_splits)
qed

lemma assignUsers_seeds:
  "assignUsers seed allUsers es ms hs us si db = (e, si', db') \<Longrightarrow>
     assignmentSeeds db' = assignmentSeeds db \<and> users db' = users db \<and> proofs db' = proofs db"
proof (induction us arbitrary: si db)
  case Nil
  then show ?case by simp
next
  case (Cons u us)
  then show ?case
    by (auto split: prod.splits option.splits dest!: assignWithTarget_seeds)
qed

lemma teamLoop_error: "teamLoop a i acc = Inl err \<Longrightarrow> err = TypeError"
proof (induction a i acc rule: teamLoop.induct)
  case (1 a i acc)
  show ?case
  proof (cases "i < length a")
    case False
    with "1.prems" show ?thesis by (simp add: teamLoop.simps)
  next
    case True
    show ?thesis
    proof (cases "those (take (min 3 (length a - i)) (drop i a))")
      case None
      with True "1.prems" show ?thesis by (simp add: teamLoop.simps Let_def)
    next
      case (Some us)
      with True "1.prems" have "teamLoop a (i + 3) (acc @ [map u_id us]) = Inl err"
        by (simp add: teamLoop.simps Let_def)
      with "1.IH"[OF True refl refl Some] show ?thesis by simp
    qed
  qed
qed

lemma createTeams_error:
  "createTeams seed tcs tas i si db = (Some err, si', db') \<Longrightarrow> err = TypeError"
proof (induction tas arbitrary: i si db)
  case Nil
  then show ?case by simp
next
  case (Cons ms rest)
  then show ?case
    by (fastforce split: prod.splits option.splits)
qed

lemma assignWithTarget_error:
  "assignWithTarget seed allUsers usr cs si db = (Some err, si', db') \<Longrightarrow> err = TypeError"
proof (induction cs arbitrary: si db)
  case Nil
  then show ?case by simp
next
  case (Cons c cs)
  then show ?case
    by (auto simp: Let_def split: prod.splits option.splits if_splits)
qed

lemma assignUsers_error:
  "assignUsers seed allUsers es ms hs us si db = (Some err, si', db') \<Longrightarrow> err = TypeError"
proof (induction us arbitrary: si db)
  case Nil
  then show ?case by simp
next
  case (Cons u us)
  then show ?case
    by (auto split: prod.splits option.splits dest!: assignWithTarget_error)
qed

subsection \<open>Every created assignment is fresh\<close>

lemma createAssignment_fresh:
  "\<forall>a\<in>set (assignments db). freshAssignment a \<Longrightarrow> tgt \<noteq> Some uid \<Longrightarrow>
     \<forall>a\<in>set (assignments (createAssignment uid cid tgt not_started db)). freshAssignment a"
  by (simp add: freshAssignment_def)

lemma assignEasy_fresh:
  "\<forall>a\<in>set (assignments db). freshAssignment a \<Longrightarrow>
     \<forall>a\<in>set (assignments (assignEasy usr cs db)). freshAssignment a"
proof (induction cs arbitrary: db)
  case Nil
  then show ?case by simp
next
  case (Cons c cs)
  have "\<forall>a\<in>set (assignments (createAssignment (u_id usr) (c_id c) None not_started db)).
          freshAssignment a"
    using Cons.prems by (rule createAssignment_fresh) simp
  from Cons.IH[OF this] show ?case by simp
qed

lemma assignWithTarget_fresh:
  "assignWithTarget seed allUsers usr cs si db = (e, si', db') \<Longrightarrow>
     \<forall>a\<in>set (assignments db). freshAssignment a \<Longrightarrow>
     \<forall>a\<in>set (assignments db'). freshAssignment a"
proof (induction cs arbitrary: si db)
  case Nil
  then show ?case by simp
next
  case (Cons c cs)
  show ?case
  proof (cases "c_needsTarget c")
    case False
    have "\<forall>a\<in>set (assignments (createAssignment (u_id usr) (c_id c) None not_started db)).
            freshAssignment a"
      using Cons.prems(2) by (rule createAssignment_fresh) simp
    moreover have "assignWithTarget seed allUsers usr cs si
        (createAssignment (u_id usr) (c_id c) None not_started db) = (e, si', db')"
      using Cons.prems(1) False by simp
    ultimately show ?thesis using Cons.IH by blast
  next
    case True
    obtain r si1 where r: "seededRandom seed si = (r, si1)" by (cases "seededRandom seed si")
    let ?pt = "filter (\<lambda>u. u_id u \<noteq> u_id usr) allUsers"
    show ?thesis
    proof (cases "arrayAt ?pt (floorTimes r (length ?pt))")
      case None
      with True r Cons.prems show ?thesis by (simp add: Let_def)
    next
      case (Some tgt)
      then have "u_id tgt \<noteq> u_id usr" using arrayAt_mem[OF Some] by simp
      then have "\<forall>a\<in>set (assignments
            (createAssignment (u_id usr) (c_id c) (Some (u_id tgt)) not_started db)).
            freshAssignment a"
        using Cons.prems(2) by (intro createAssignment_fresh) simp_all
      moreover have "assignWithTarget seed allUsers usr cs si1
          (createAssignment (u_id usr) (c_id c) (Some (u_id tgt)) not_started db) = (e, si', db')"
        using Cons.prems(1) True r Some by (simp add: Let_def)
      ultimately show ?thesis using Cons.IH by blast
    qed
  qed
qed

lemma assignUsers_fresh:
  "assignUsers seed allUsers es ms hs us si db = (e, si', db') \<Longrightarrow>
     \<forall>a\<in>set (assignments db). freshAssignment a \<Longrightarrow>
     \<forall>a\<in>set (assignments db'). freshAssignment a"
proof (induction us arbitrary: si db)
  case Nil
  then show ?case by simp
next
  case (Cons u us)
  obtain se s1 where e: "arraySort seed es si = (se, s1)" by (cases "arraySort seed es si")
  obtain sm s2 where m: "arraySort seed ms s1 = (sm, s2)" by (cases "arraySort seed ms s1")
  obtain e3 s3 d2 where w1:
    "assignWithTarget seed allUsers u (take 2 sm) s2 (assignEasy u (take 2 se) db) = (e3, s3, d2)"
    by (cases "assignWithTarget seed allUsers u (take 2 sm) s2 (assignEasy u (take 2 se) db)")
  have f2: "\<forall>a\<in>set (assignments d2). freshAssignment a"
    using assignWithTarget_fresh[OF w1] assignEasy_fresh[OF Cons.prems(2)] by blast
  show ?case
  proof (cases e3)
    case (Some err)
    with Cons.prems(1) e m w1 f2 show ?thesis by simp
  next
    case None
    obtain sh s4 where h: "arraySort seed hs s3 = (sh, s4)" by (cases "arraySort seed hs s3")
    obtain e5 s5 d3 where w2:
      "assignWithTarget seed allUsers u (take 2 sh) s4 d2 = (e5, s5, d3)"
      by (cases "assignWithTarget seed allUsers u (take 2 sh) s4 d2")
    have f3: "\<forall>a\<in>set (assignments d3). freshAssignment a"
      using assignWithTarget_fresh[OF w2 f2] .
    show ?thesis
    proof (cases e5)
      case (Some err)
      with Cons.prems(1) e m w1 None h w2 f3 show ?thesis by simp
    next
      case None2: None
      from Cons.prems(1) e m w1 None h w2 None2
      have "assignUsers seed allUsers es ms hs us s5 d3 = (e, si', db')" by simp
      from Cons.IH[OF this f3] show ?thesis .
    qed
  qed
qed

subsection \<open>The statements the database can refuse\<close>

lemma teamsReferenced_frame [simp]:
  "teamsReferenced (db\<lparr>assignments := xs, teamMembers := ys\<rparr>) = teamsReferenced db"
  by (simp add: teamsReferenced_def)

lemma generateAssignments_refused_assignments:
  "assignmentsReferenced db \<Longrightarrow>
     generateAssignments h rnd adminId db = (Inl DatabaseError, db)"
  by (simp add: generateAssignments_def Let_def deleteAssignments_def)

lemma generateAssignments_refused_teams:
  "\<not> assignmentsReferenced db \<Longrightarrow> teamsReferenced db \<Longrightarrow>
     generateAssignments h rnd adminId db =
       (Inl DatabaseError, db\<lparr>assignments := [], teamMembers := []\<rparr>)"
  by (simp add: generateAssignments_def Let_def deleteAssignments_def deleteTeamMembers_def
        deleteTeams_def)

lemma generateAssignments_refused_seed:
  "\<not> assignmentsReferenced db \<Longrightarrow> \<not> teamsReferenced db \<Longrightarrow> adminId \<notin> u_id ` set (users db) \<Longrightarrow>
     generateAssignments h rnd adminId db =
       (Inl DatabaseError,
        db\<lparr>assignments := [], teamMembers := [], teams := [],
           assignmentSeeds := map (\<lambda>s. s\<lparr>s_isActive := False\<rparr>) (assignmentSeeds db)\<rparr>)"
  by (simp add: generateAssignments_def Let_def deleteAssignments_def deleteTeamMembers_def
        deleteTeams_def deactivateSeeds_def insertSeed_def)

lemma generateAssignments_unfold:
  "databaseAccepts adminId db \<Longrightarrow>
   generateAssignments h rnd adminId db =
     (let seed = toStringHex rnd;
          allUsers = filter (\<lambda>u. u_isAdmin u = False) (users db);
          db1 = afterSeedInsert h rnd adminId db;
          sh = shuffleLoop seed (length allUsers - 1) (map Some allUsers, None) 0
      in case teamLoop (fst (fst sh)) 0 [] of
           Inl e \<Rightarrow> (Inl e, db1)
         | Inr tas \<Rightarrow>
             (let ct = createTeams seed (getChallengesByDifficulty team db) tas 0 (snd sh) db1
              in case fst ct of
                   Some e \<Rightarrow> (Inl e, snd (snd ct))
                 | None \<Rightarrow>
                     (let au = assignUsers seed allUsers (getChallengesByDifficulty easy db)
                                 (getChallengesByDifficulty medium db)
                                 (getChallengesByDifficulty hard db) allUsers
                                 (fst (snd ct)) (snd (snd ct))
                      in case fst au of
                           Some e \<Rightarrow> (Inl e, snd (snd au))
                         | None \<Rightarrow>
                             (Inr (storedSeedRecord h rnd adminId db),
                              createAuditLogEntry generate_assignments adminId
                                (auditDetails (length allUsers)) (Some (h seed))
                                (snd (snd au))))))"
  by (simp add: generateAssignments_def Let_def databaseAccepts_def deleteAssignments_def
        deleteTeamMembers_def deleteTeams_def deactivateSeeds_def insertSeed_def
        afterSeedInsert_def storedSeedRecord_def
      split: prod.splits sum.splits option.splits)

lemma generateAssignments_cases:
  obtains (refusedAssignments) "assignmentsReferenced db"
      "generateAssignments h rnd adminId db = (Inl DatabaseError, db)"
  | (refusedTeams) "\<not> assignmentsReferenced db" "teamsReferenced db"
      "generateAssignments h rnd adminId db =
         (Inl DatabaseError, db\<lparr>assignments := [], teamMembers := []\<rparr>)"
  | (refusedSeed) "\<not> assignmentsReferenced db" "\<not> teamsReferenced db"
      "adminId \<notin> u_id ` set (users db)"
      "generateAssignments h rnd adminId db =
         (Inl DatabaseError,
          db\<lparr>assignments := [], teamMembers := [], teams := [],
             assignmentSeeds := map (\<lambda>s. s\<lparr>s_isActive := False\<rparr>) (assignmentSeeds db)\<rparr>)"
  | (accepted) "databaseAccepts adminId db"
  using generateAssignments_refused_assignments[of db h rnd adminId]
    generateAssignments_refused_teams[of db h rnd adminId]
    generateAssignments_refused_seed[of db adminId h rnd]
  unfolding databaseAccepts_def by blast

text \<open>The ways an accepted call can end.\<close>

lemma generateAssignments_acceptedE:
  assumes "databaseAccepts adminId db"
  obtains
    (shuffleRaises) a s1 where
      "shuffleLoop (toStringHex rnd) (length (filter (\<lambda>u. u_isAdmin u = False) (users db)) - 1)
         (map Some (filter (\<lambda>u. u_isAdmin u = False) (users db)), None) 0 = (a, s1)"
      "teamLoop (fst a) 0 [] = Inl TypeError"
      "generateAssignments h rnd adminId db = (Inl TypeError, afterSeedInsert h rnd adminId db)"
  | (teamsRaise) a s1 tas s2 db2 where
      "shuffleLoop (toStringHex rnd) (length (filter (\<lambda>u. u_isAdmin u = False) (users db)) - 1)
         (map Some (filter (\<lambda>u. u_isAdmin u = False) (users db)), None) 0 = (a, s1)"
      "teamLoop (fst a) 0 [] = Inr tas"
      "createTeams (toStringHex rnd) (getChallengesByDifficulty team db) tas 0 s1
         (afterSeedInsert h rnd adminId db) = (Some TypeError, s2, db2)"
      "generateAssignments h rnd adminId db = (Inl TypeError, db2)"
  | (assignmentsRaise) a s1 tas s2 db2 s3 db3 where
      "shuffleLoop (toStringHex rnd) (length (filter (\<lambda>u. u_isAdmin u = False) (users db)) - 1)
         (map Some (filter (\<lambda>u. u_isAdmin u = False) (users db)), None) 0 = (a, s1)"
      "teamLoop (fst a) 0 [] = Inr tas"
      "createTeams (toStringHex rnd) (getChallengesByDifficulty team db) tas 0 s1
         (afterSeedInsert h rnd adminId db) = (None, s2, db2)"
      "assignUsers (toStringHex rnd) (filter (\<lambda>u. u_isAdmin u = False) (users db))
         (getChallengesByDifficulty easy db) (getChallengesByDifficulty medium db)
         (getChallengesByDifficulty hard db) (filter (\<lambda>u. u_isAdmin u = False) (users db))
         s2 db2 = (Some TypeError, s3, db3)"
      "generateAssignments h rnd adminId db = (Inl TypeError, db3)"
  | (returns) a s1 tas s2 db2 s3 db3 where
      "shuffleLoop (toStringHex rnd) (length (filter (\<lambda>u. u_isAdmin u = False) (users db)) - 1)
         (map Some (filter (\<lambda>u. u_isAdmin u = False) (users db)), None) 0 = (a, s1)"
      "teamLoop (fst a) 0 [] = Inr tas"
      "createTeams (toStringHex rnd) (getChallengesByDifficulty team db) tas 0 s1
         (afterSeedInsert h rnd adminId db) = (None, s2, db2)"
      "assignUsers (toStringHex rnd) (filter (\<lambda>u. u_isAdmin u = False) (users db))
         (getChallengesByDifficulty easy db) (getChallengesByDifficulty medium db)
         (getChallengesByDifficulty hard db) (filter (\<lambda>u. u_isAdmin u = False) (users db))
         s2 db2 = (None, s3, db3)"
      "generateAssignments h rnd adminId db =
         (Inr (storedSeedRecord h rnd adminId db),
          createAuditLogEntry generate_assignments adminId
            (auditDetails (length (filter (\<lambda>u. u_isAdmin u = False) (users db))))
            (Some (h (toStringHex rnd))) db3)"
proof -
  let ?seed = "toStringHex rnd"
  let ?U = "filter (\<lambda>u. u_isAdmin u = False) (users db)"
  let ?db1 = "afterSeedInsert h rnd adminId db"
  note unf = generateAssignments_unfold[OF assms, of h rnd]
  obtain a s1 where sh: "shuffleLoop ?seed (length ?U - 1) (map Some ?U, None) 0 = (a, s1)"
    by (cases "shuffleLoop ?seed (length ?U - 1) (map Some ?U, None) 0")
  show thesis
  proof (cases "teamLoop (fst a) 0 []")
    case (Inl err)
    from teamLoop_error[OF Inl] have e: "err = TypeError" .
    have "generateAssignments h rnd adminId db = (Inl TypeError, ?db1)"
      using sh Inl e by (simp add: unf Let_def)
    with sh Inl e shuffleRaises show thesis by blast
  next
    case (Inr tas)
    obtain e2 s2 db2 where ct:
      "createTeams ?seed (getChallengesByDifficulty team db) tas 0 s1 ?db1 = (e2, s2, db2)"
      by (cases "createTeams ?seed (getChallengesByDifficulty team db) tas 0 s1 ?db1")
    show thesis
    proof (cases e2)
      case (Some err)
      with ct createTeams_error have e: "err = TypeError" by blast
      have "generateAssignments h rnd adminId db = (Inl TypeError, db2)"
        using sh Inr ct Some e by (simp add: unf Let_def)
      with sh Inr ct Some e teamsRaise show thesis by blast
    next
      case None
      obtain e3 s3 db3 where au:
        "assignUsers ?seed ?U (getChallengesByDifficulty easy db)
           (getChallengesByDifficulty medium db) (getChallengesByDifficulty hard db)
           ?U s2 db2 = (e3, s3, db3)"
        by (cases "assignUsers ?seed ?U (getChallengesByDifficulty easy db)
           (getChallengesByDifficulty medium db) (getChallengesByDifficulty hard db) ?U s2 db2")
      show thesis
      proof (cases e3)
        case (Some err)
        with au assignUsers_error have e: "err = TypeError" by blast
        have "generateAssignments h rnd adminId db = (Inl TypeError, db3)"
          using sh Inr ct None au Some e by (simp add: unf Let_def)
        with sh Inr ct None au Some e assignmentsRaise show thesis by blast
      next
        case None3: None
        have "generateAssignments h rnd adminId db =
                (Inr (storedSeedRecord h rnd adminId db),
                 createAuditLogEntry generate_assignments adminId
                   (auditDetails (length ?U)) (Some (h ?seed)) db3)"
          using sh Inr ct None au None3 by (simp add: unf Let_def)
        with sh Inr ct None au None3 returns show thesis by blast
      qed
    qed
  qed
qed

lemma afterSeedInsert_fields [simp]:
  "assignments (afterSeedInsert h rnd adminId db) = []"
  "teams (afterSeedInsert h rnd adminId db) = []"
  "teamMembers (afterSeedInsert h rnd adminId db) = []"
  "assignmentSeeds (afterSeedInsert h rnd adminId db) =
     map (\<lambda>s. s\<lparr>s_isActive := False\<rparr>) (assignmentSeeds db) @ [storedSeedRecord h rnd adminId db]"
  "users (afterSeedInsert h rnd adminId db) = users db"
  "proofs (afterSeedInsert h rnd adminId db) = proofs db"
  "nextId (afterSeedInsert h rnd adminId db) = Suc (nextId db)"
  by (simp_all add: afterSeedInsert_def)

lemma createAuditLogEntry_fields [simp]:
  "assignments (createAuditLogEntry act adminId details sh db) = assignments db"
  "teams (createAuditLogEntry act adminId details sh db) = teams db"
  "teamMembers (createAuditLogEntry act adminId details sh db) = teamMembers db"
  "assignmentSeeds (createAuditLogEntry act adminId details sh db) = assignmentSeeds db"
  "users (createAuditLogEntry act adminId details sh db) = users db"
  "proofs (createAuditLogEntry act adminId details sh db) = proofs db"
  "nextId (createAuditLogEntry act adminId details sh db) = Suc (nextId db)"
  by (simp_all add: createAuditLogEntry_def)

text \<open>The call raises the error of the database exactly when a statement is refused.\<close>

lemma raised_DatabaseError_iff:
  "raised (generateAssignments h rnd adminId db) = Some DatabaseError \<longleftrightarrow>
     \<not> databaseAccepts adminId db"
proof (cases rule: generateAssignments_cases[of db h rnd adminId])
  case refusedAssignments
  then show ?thesis by (simp add: raised_def databaseAccepts_def)
next
  case refusedTeams
  then show ?thesis by (simp add: raised_def databaseAccepts_def)
next
  case refusedSeed
  then show ?thesis by (simp add: raised_def databaseAccepts_def)
next
  case accepted
  then have "raised (generateAssignments h rnd adminId db) \<noteq> Some DatabaseError"
    by (cases rule: generateAssignments_acceptedE[of adminId db rnd h])
       (simp_all add: raised_def)
  with accepted show ?thesis by simp
qed

subsection \<open>The tables after a call\<close>

lemma generateAssignments_seeds:
  assumes "databaseAccepts adminId db"
  shows "assignmentSeeds (snd (generateAssignments h rnd adminId db)) =
           map (\<lambda>s. s\<lparr>s_isActive := False\<rparr>) (assignmentSeeds db) @
           [storedSeedRecord h rnd adminId db]"
  using assms
proof (cases rule: generateAssignments_acceptedE[of adminId db rnd h])
  case (shuffleRaises a s1)
  then show ?thesis by simp
next
  case (teamsRaise a s1 tas s2 db2)
  with createTeams_frame[OF teamsRaise(3)] show ?thesis by simp
next
  case (assignmentsRaise a s1 tas s2 db2 s3 db3)
  with createTeams_frame[OF assignmentsRaise(3)] assignUsers_seeds[OF assignmentsRaise(4)]
  show ?thesis by simp
next
  case (returns a s1 tas s2 db2 s3 db3)
  with createTeams_frame[OF returns(3)] assignUsers_seeds[OF returns(4)]
  show ?thesis by simp
qed

lemma generateAssignments_users_proofs:
  "users (snd (generateAssignments h rnd adminId db)) = users db \<and>
   proofs (snd (generateAssignments h rnd adminId db)) = proofs db"
proof (cases rule: generateAssignments_cases[of db h rnd adminId])
  case refusedAssignments
  then show ?thesis by simp
next
  case refusedTeams
  then show ?thesis by simp
next
  case refusedSeed
  then show ?thesis by simp
next
  case accepted
  then show ?thesis
  proof (cases rule: generateAssignments_acceptedE[of adminId db rnd h])
    case (shuffleRaises a s1)
    then show ?thesis by simp
  next
    case (teamsRaise a s1 tas s2 db2)
    with createTeams_frame[OF teamsRaise(3)] show ?thesis by simp
  next
    case (assignmentsRaise a s1 tas s2 db2 s3 db3)
    with createTeams_frame[OF assignmentsRaise(3)] assignUsers_seeds[OF assignmentsRaise(4)]
    show ?thesis by simp
  next
    case (returns a s1 tas s2 db2 s3 db3)
    with createTeams_frame[OF returns(3)] assignUsers_seeds[OF returns(4)]
    show ?thesis by simp
  qed
qed

lemma generateAssignments_fresh:
  assumes "\<not> assignmentsReferenced db"
  shows "\<forall>a\<in>set (assignments (snd (generateAssignments h rnd adminId db))). freshAssignment a"
proof (cases rule: generateAssignments_cases[of db h rnd adminId])
  case refusedAssignments
  with assms show ?thesis by simp
next
  case refusedTeams
  then show ?thesis by simp
next
  case refusedSeed
  then show ?thesis by simp
next
  case accepted
  then show ?thesis
  proof (cases rule: generateAssignments_acceptedE[of adminId db rnd h])
    case (shuffleRaises a s1)
    then show ?thesis by simp
  next
    case (teamsRaise a s1 tas s2 db2)
    with createTeams_frame[OF teamsRaise(3)] show ?thesis by simp
  next
    case (assignmentsRaise a s1 tas s2 db2 s3 db3)
    have "\<forall>a\<in>set (assignments db2). freshAssignment a"
      using createTeams_frame[OF assignmentsRaise(3)] by simp
    from assignUsers_fresh[OF assignmentsRaise(4) this] assignmentsRaise(5)
    show ?thesis by simp
  next
    case (returns a s1 tas s2 db2 s3 db3)
    have "\<forall>a\<in>set (assignments db2). freshAssignment a"
      using createTeams_frame[OF returns(3)] by simp
    from assignUsers_fresh[OF returns(4) this] returns(5)
    show ?thesis by simp
  qed
qed

subsection \<open>Evaluating the stream on the sample buffers\<close>

lemma replicate_8: "replicate 8 c = [c, c, c, c, c, c, c, c]"
  by (simp add: numeral_eq_Suc)

lemma toStringHex_replicate: "toStringHex (replicate n b) = concat (replicate n (hexOfByte b))"
  by (induction n) (simp_all add: toStringHex_def)

lemma concat_replicate_pair: "concat (replicate n [c, c]) = replicate (2 * n) c"
  by (induction n) simp_all

lemma window_full:
  assumes "si mod 8 = 0"
  shows "min 8 (256 - si mod 256) = (8::nat)"
proof -
  from assms have "8 dvd si" by (simp add: dvd_eq_mod_eq_0)
  then obtain k where k: "si = 8 * k" by (auto elim: dvdE)
  have "si mod 256 = 8 * (k mod 32)"
    unfolding k using mult_mod_right[of 8 k 32] by simp
  moreover have "k mod 32 < 32" by simp
  ultimately have "si mod 256 \<le> 248" by linarith
  then show ?thesis by simp
qed

lemma toStringHex_bytes44: "toStringHex bytes44 = replicate 256 CHR ''4''"
  by (simp add: bytes44_def toStringHex_replicate hexOfByte_def hexDigit_def concat_replicate_pair)

lemma toStringHex_bytesFF: "toStringHex bytesFF = replicate 256 CHR ''f''"
  by (simp add: bytesFF_def toStringHex_replicate hexOfByte_def hexDigit_def concat_replicate_pair)

lemma seededRandom_bytes44:
  "si mod 8 = 0 \<Longrightarrow> seededRandom (toStringHex bytes44) si = (Some (4 / 15), si + 8)"
  by (simp add: seededRandom_def toStringHex_bytes44 substr_def window_full replicate_8
        parseInt16_def hexValue_def)

lemma seededRandom_bytesFF:
  "si mod 8 = 0 \<Longrightarrow> seededRandom (toStringHex bytesFF) si = (Some 1, si + 8)"
  by (simp add: seededRandom_def toStringHex_bytesFF substr_def window_full replicate_8
        parseInt16_def hexValue_def)

lemmas run_defs =
  generateAssignments_def getChallengesByDifficulty_def deleteAssignments_def
  deleteTeamMembers_def deleteTeams_def deactivateSeeds_def insertSeed_def
  assignmentsReferenced_def teamsReferenced_def
  floorTimes_def swapCells_def cell_def arrayAt_def arraySet_def teamLoop.simps createTeam_def
  addTeamMember_def createAssignment_def createAuditLogEntry_def arraySort_def
  identificationMissions_def Let_def numeral_3_eq_3 raised_def teamSizes_def
  assignmentList_def sampleDb_def sampleChallenges_def mkUser_def mkChallenge_def

lemma sample_run_raised:
  "raised (generateAssignments sampleHash bytes44 99 sampleDb) = None"
  by (simp add: run_defs seededRandom_bytes44)

lemma sample_run_teams:
  "teamSizes (snd (generateAssignments sampleHash bytes44 99 sampleDb)) = [3, 1]"
  by (simp add: run_defs seededRandom_bytes44)

lemma sample_run_assignments:
  "assignmentList (snd (generateAssignments sampleHash bytes44 99 sampleDb)) =
     [(1, 11, None, not_started), (1, 10, None, not_started), (1, 21, None, not_started),
      (1, 20, Some 2, not_started), (1, 31, Some 2, not_started), (1, 30, None, not_started),
      (2, 11, None, not_started), (2, 10, None, not_started), (2, 21, None, not_started),
      (2, 20, Some 1, not_started), (2, 31, Some 1, not_started), (2, 30, None, not_started),
      (3, 11, None, not_started), (3, 10, None, not_started), (3, 21, None, not_started),
      (3, 20, Some 1, not_started), (3, 31, Some 1, not_started), (3, 30, None, not_started),
      (4, 11, None, not_started), (4, 10, None, not_started), (4, 21, None, not_started),
      (4, 20, Some 1, not_started), (4, 31, Some 1, not_started), (4, 30, None, not_started)]"
  by (simp add: run_defs seededRandom_bytes44)

lemma sample_run_FF:
  "raised (generateAssignments sampleHash bytesFF 99 sampleDb) = Some TypeError"
  by (simp add: run_defs seededRandom_bytesFF)

subsection \<open>An empty team pool\<close>

lemma arraySet_length: "length (fst a) \<le> length (fst (arraySet a j v))"
  by (simp add: arraySet_def split: option.splits)

lemma swapCells_length: "length (fst a) \<le> length (fst (swapCells a i j))"
  unfolding swapCells_def Let_def
  by (rule order_trans[OF arraySet_length arraySet_length])

lemma shuffleLoop_length:
  "shuffleLoop seed i a si = (a', si') \<Longrightarrow> length (fst a) \<le> length (fst a')"
proof (induction i arbitrary: a si)
  case 0
  then show ?case by simp
next
  case (Suc i)
  obtain r s1 where r: "seededRandom seed si = (r, s1)" by (cases "seededRandom seed si")
  with Suc.prems
  have "shuffleLoop seed i (swapCells a (Suc i) (floorTimes r (Suc i + 1))) s1 = (a', si')"
    by simp
  from Suc.IH[OF this] swapCells_length[of a "Suc i" "floorTimes r (Suc i + 1)"]
  show ?case by linarith
qed

lemma teamLoop_nonempty:
  "teamLoop a i acc = Inr tas \<Longrightarrow> i < length a \<or> acc \<noteq> [] \<Longrightarrow> tas \<noteq> []"
proof (induction a i acc rule: teamLoop.induct)
  case (1 a i acc)
  show ?case
  proof (cases "i < length a")
    case False
    with "1.prems" show ?thesis by (simp add: teamLoop.simps)
  next
    case True
    let ?members = "take (min 3 (length a - i)) (drop i a)"
    show ?thesis
    proof (cases "those ?members")
      case None
      with True "1.prems"(1) show ?thesis by (simp add: teamLoop.simps Let_def)
    next
      case (Some us)
      with True "1.prems"(1)
      have "teamLoop a (i + 3) (acc @ [map u_id us]) = Inr tas"
        by (simp add: teamLoop.simps Let_def)
      with "1.IH"[OF True refl refl Some] show ?thesis by simp
    qed
  qed
qed

lemma createTeams_no_challenge:
  "tas \<noteq> [] \<Longrightarrow> createTeams seed [] tas i si db = (e, si', db') \<Longrightarrow>
     e = Some TypeError \<and> db' = db"
  by (cases tas) (auto split: prod.splits option.splits)

lemma generateAssignments_no_team_challenge:
  assumes "databaseAccepts adminId db"
    and "getChallengesByDifficulty team db = []"
    and "filter (\<lambda>u. u_isAdmin u = False) (users db) \<noteq> []"
  shows "generateAssignments h rnd adminId db =
           (Inl TypeError, afterSeedInsert h rnd adminId db)"
  using assms(1)
proof (cases rule: generateAssignments_acceptedE[of adminId db rnd h])
  case (shuffleRaises a s1)
  then show ?thesis by simp
next
  case (teamsRaise a s1 tas s2 db2)
  from shuffleLoop_length[OF teamsRaise(1)] assms(3) have "0 < length (fst a)"
    by (cases "filter (\<lambda>u. u_isAdmin u = False) (users db)") auto
  with teamLoop_nonempty[OF teamsRaise(2)] have "tas \<noteq> []" by simp
  from createTeams_no_challenge[OF this] teamsRaise(3) assms(2)
  have "db2 = afterSeedInsert h rnd adminId db" by fastforce
  with teamsRaise(4) show ?thesis by simp
next
  case (assignmentsRaise a s1 tas s2 db2 s3 db3)
  from shuffleLoop_length[OF assignmentsRaise(1)] assms(3) have "0 < length (fst a)"
    by (cases "filter (\<lambda>u. u_isAdmin u = False) (users db)") auto
  with teamLoop_nonempty[OF assignmentsRaise(2)] have "tas \<noteq> []" by simp
  from createTeams_no_challenge[OF this] assignmentsRaise(3) assms(2)
  show ?thesis by fastforce
next
  case (returns a s1 tas s2 db2 s3 db3)
  from shuffleLoop_length[OF returns(1)] assms(3) have "0 < length (fst a)"
    by (cases "filter (\<lambda>u. u_isAdmin u = False) (users db)") auto
  with teamLoop_nonempty[OF returns(2)] have "tas \<noteq> []" by simp
  from createTeams_no_challenge[OF this] returns(3) assms(2)
  show ?thesis by fastforce
qed

lemma noTeam_run:
  "getChallengesByDifficulty team noTeamChallengeDb = []"
  "filter (\<lambda>u. u_isAdmin u = False) (users noTeamChallengeDb) \<noteq> []"
  "teams noTeamChallengeDb \<noteq> []"
  "map s_isActive (assignmentSeeds noTeamChallengeDb) = [True]"
  "databaseAccepts 99 noTeamChallengeDb"
  by (simp_all add: noTeamChallengeDb_def getChallengesByDifficulty_def sampleDb_def
        sampleChallenges_def mkChallenge_def mkUser_def databaseAccepts_def
        assignmentsReferenced_def teamsReferenced_def)

subsection \<open>The sort rearranges the pool\<close>

lemma insertSeeded_mset:
  "insertSeeded seed x ys si = (zs, si') \<Longrightarrow> mset zs = add_mset x (mset ys)"
proof (induction ys arbitrary: si zs si')
  case Nil
  then show ?case by auto
next
  case (Cons y ys)
  obtain r s1 where r: "seededRandom seed si = (r, s1)" by (cases "seededRandom seed si")
  show ?case
  proof (cases "case r of None \<Rightarrow> False | Some v \<Rightarrow> v - 0.5 < 0")
    case True
    with Cons.prems r show ?thesis by auto
  next
    case False
    obtain ws s2 where w: "insertSeeded seed x ys s1 = (ws, s2)"
      by (cases "insertSeeded seed x ys s1")
    from Cons.IH[OF w] Cons.prems r False w show ?thesis by auto
  qed
qed

lemma sortLoop_mset:
  "sortLoop seed xs placed si = (zs, si') \<Longrightarrow> mset zs = mset xs + mset placed"
proof (induction xs arbitrary: placed si)
  case Nil
  then show ?case by simp
next
  case (Cons x xs)
  obtain p s1 where p: "insertSeeded seed x placed si = (p, s1)"
    by (cases "insertSeeded seed x placed si")
  with Cons.prems have "sortLoop seed xs p s1 = (zs, si')" by simp
  from Cons.IH[OF this] insertSeeded_mset[OF p] show ?case by simp
qed

lemma arraySort_mset: "arraySort seed xs si = (zs, si') \<Longrightarrow> mset zs = mset xs"
  using sortLoop_mset[of seed xs "[]" si zs si'] by (simp add: arraySort_def)

subsection \<open>The challenges each loop hands to a user\<close>

lemma challengesOf_createAssignment [simp]:
  "challengesOf uid (createAssignment u cid tgt st db) =
     challengesOf uid db @ (if u = uid then [cid] else [])"
  by (simp add: challengesOf_def)

lemma assignEasy_challengesOf:
  "challengesOf uid (assignEasy usr cs db) =
     challengesOf uid db @ (if u_id usr = uid then map c_id cs else [])"
  by (induction cs arbitrary: db) simp_all

lemma assignWithTarget_other:
  "assignWithTarget seed allUsers usr cs si db = (e, si', db') \<Longrightarrow> u_id usr \<noteq> uid \<Longrightarrow>
     challengesOf uid db' = challengesOf uid db"
proof (induction cs arbitrary: si db)
  case Nil
  then show ?case by simp
next
  case (Cons c cs)
  then show ?case
    by (auto simp: Let_def split: prod.splits option.splits if_splits)
qed

lemma assignWithTarget_mine:
  "assignWithTarget seed allUsers usr cs si db = (None, si', db') \<Longrightarrow>
     challengesOf (u_id usr) db' = challengesOf (u_id usr) db @ map c_id cs"
proof (induction cs arbitrary: si db)
  case Nil
  then show ?case by simp
next
  case (Cons c cs)
  then show ?case
    by (auto simp: Let_def split: prod.splits option.splits if_splits)
qed

lemma assignUsers_ConsE:
  assumes "assignUsers seed allUsers es ms hs (v # vs) si db = (e, si', db')"
  obtains (mediumRaises) se s1 sm s2 err where
      "arraySort seed es si = (se, s1)" "arraySort seed ms s1 = (sm, s2)"
      "assignWithTarget seed allUsers v (take 2 sm) s2 (assignEasy v (take 2 se) db) =
         (Some err, si', db')"
      "e = Some err"
  | (hardRaises) se s1 sm s2 s3 d2 sh s4 err where
      "arraySort seed es si = (se, s1)" "arraySort seed ms s1 = (sm, s2)"
      "assignWithTarget seed allUsers v (take 2 sm) s2 (assignEasy v (take 2 se) db) =
         (None, s3, d2)"
      "arraySort seed hs s3 = (sh, s4)"
      "assignWithTarget seed allUsers v (take 2 sh) s4 d2 = (Some err, si', db')"
      "e = Some err"
  | (served) se s1 sm s2 s3 d2 sh s4 s5 d3 where
      "arraySort seed es si = (se, s1)" "arraySort seed ms s1 = (sm, s2)"
      "assignWithTarget seed allUsers v (take 2 sm) s2 (assignEasy v (take 2 se) db) =
         (None, s3, d2)"
      "arraySort seed hs s3 = (sh, s4)"
      "assignWithTarget seed allUsers v (take 2 sh) s4 d2 = (None, s5, d3)"
      "assignUsers seed allUsers es ms hs vs s5 d3 = (e, si', db')"
proof -
  obtain se s1 where a: "arraySort seed es si = (se, s1)" by (cases "arraySort seed es si")
  obtain sm s2 where b: "arraySort seed ms s1 = (sm, s2)" by (cases "arraySort seed ms s1")
  obtain e3 s3 d2 where c:
    "assignWithTarget seed allUsers v (take 2 sm) s2 (assignEasy v (take 2 se) db) = (e3, s3, d2)"
    by (cases "assignWithTarget seed allUsers v (take 2 sm) s2 (assignEasy v (take 2 se) db)")
  show thesis
  proof (cases e3)
    case (Some err)
    with assms a b c show thesis by (intro mediumRaises[of se s1 sm s2 err]) simp_all
  next
    case None
    obtain sh s4 where d: "arraySort seed hs s3 = (sh, s4)" by (cases "arraySort seed hs s3")
    obtain e5 s5 d3 where f: "assignWithTarget seed allUsers v (take 2 sh) s4 d2 = (e5, s5, d3)"
      by (cases "assignWithTarget seed allUsers v (take 2 sh) s4 d2")
    show thesis
    proof (cases e5)
      case (Some err)
      with assms a b c None d f show thesis
        by (intro hardRaises[of se s1 sm s2 s3 d2 sh s4 err]) simp_all
    next
      case None2: None
      with assms a b c None d f show thesis
        by (intro served[of se s1 sm s2 s3 d2 sh s4 s5 d3]) simp_all
    qed
  qed
qed

lemma assignUsers_other:
  "assignUsers seed allUsers es ms hs us si db = (e, si', db') \<Longrightarrow> uid \<notin> u_id ` set us \<Longrightarrow>
     challengesOf uid db' = challengesOf uid db"
proof (induction us arbitrary: si db)
  case Nil
  then show ?case by simp
next
  case (Cons v vs)
  from Cons.prems(2) have nv: "u_id v \<noteq> uid" and nvs: "uid \<notin> u_id ` set vs" by auto
  from Cons.prems(1) show ?case
  proof (cases rule: assignUsers_ConsE)
    case (mediumRaises se s1 sm s2 err)
    from assignWithTarget_other[OF mediumRaises(3) nv] nv show ?thesis
      by (simp add: assignEasy_challengesOf)
  next
    case (hardRaises se s1 sm s2 s3 d2 sh s4 err)
    from assignWithTarget_other[OF hardRaises(3) nv] assignWithTarget_other[OF hardRaises(5) nv] nv
    show ?thesis by (simp add: assignEasy_challengesOf)
  next
    case (served se s1 sm s2 s3 d2 sh s4 s5 d3)
    from assignWithTarget_other[OF served(3) nv] assignWithTarget_other[OF served(5) nv] nv
      Cons.IH[OF served(6) nvs]
    show ?thesis by (simp add: assignEasy_challengesOf)
  qed
qed

lemma assignUsers_mine:
  "assignUsers seed allUsers es ms hs us si db = (None, si', db') \<Longrightarrow>
   distinct (map u_id us) \<Longrightarrow> u \<in> set us \<Longrightarrow>
     \<exists>E M H. mset E = mset es \<and> mset M = mset ms \<and> mset H = mset hs \<and>
       challengesOf (u_id u) db' =
         challengesOf (u_id u) db @ map c_id (take 2 E @ take 2 M @ take 2 H)"
proof (induction us arbitrary: si db)
  case Nil
  then show ?case by simp
next
  case (Cons v vs)
  from Cons.prems(1) show ?case
  proof (cases rule: assignUsers_ConsE)
    case (mediumRaises se s1 sm s2 err)
    then show ?thesis by simp
  next
    case (hardRaises se s1 sm s2 s3 d2 sh s4 err)
    then show ?thesis by simp
  next
    case (served se s1 sm s2 s3 d2 sh s4 s5 d3)
    show ?thesis
    proof (cases "u_id v = u_id u")
      case True
      with Cons.prems(2) have "u_id u \<notin> u_id ` set vs" by auto
      from assignUsers_other[OF served(6) this]
        assignWithTarget_mine[OF served(3)] assignWithTarget_mine[OF served(5)] True
      have "challengesOf (u_id u) db' =
              challengesOf (u_id u) db @ map c_id (take 2 se @ take 2 sm @ take 2 sh)"
        by (simp add: assignEasy_challengesOf)
      with arraySort_mset[OF served(1)] arraySort_mset[OF served(2)] arraySort_mset[OF served(4)]
      show ?thesis by blast
    next
      case False
      with Cons.prems(3) have u: "u \<in> set vs" by auto
      from Cons.prems(2) have dv: "distinct (map u_id vs)" by simp
      from assignWithTarget_other[OF served(3) False] assignWithTarget_other[OF served(5) False] False
      have "challengesOf (u_id u) d3 = challengesOf (u_id u) db"
        by (simp add: assignEasy_challengesOf)
      with Cons.IH[OF served(6) dv u] show ?thesis by simp
    qed
  qed
qed

subsection \<open>A call that returns\<close>

lemma generateAssignments_returnsE:
  assumes "raised (generateAssignments h rnd adminId db) = None"
  obtains a s1 tas s2 db2 s3 db3 where
    "databaseAccepts adminId db"
    "shuffleLoop (toStringHex rnd) (length (filter (\<lambda>u. u_isAdmin u = False) (users db)) - 1)
       (map Some (filter (\<lambda>u. u_isAdmin u = False) (users db)), None) 0 = (a, s1)"
    "teamLoop (fst a) 0 [] = Inr tas"
    "createTeams (toStringHex rnd) (getChallengesByDifficulty team db) tas 0 s1
       (afterSeedInsert h rnd adminId db) = (None, s2, db2)"
    "assignUsers (toStringHex rnd) (filter (\<lambda>u. u_isAdmin u = False) (users db))
       (getChallengesByDifficulty easy db) (getChallengesByDifficulty medium db)
       (getChallengesByDifficulty hard db) (filter (\<lambda>u. u_isAdmin u = False) (users db))
       s2 db2 = (None, s3, db3)"
    "snd (generateAssignments h rnd adminId db) =
       createAuditLogEntry generate_assignments adminId
         (auditDetails (length (filter (\<lambda>u. u_isAdmin u = False) (users db))))
         (Some (h (toStringHex rnd))) db3"
proof -
  from assms raised_DatabaseError_iff[of h rnd adminId db]
  have acc: "databaseAccepts adminId db" by auto
  from acc show thesis
  proof (cases rule: generateAssignments_acceptedE[of adminId db rnd h])
    case (shuffleRaises a s1)
    with assms show ?thesis by (simp add: raised_def)
  next
    case (teamsRaise a s1 tas s2 db2)
    with assms show ?thesis by (simp add: raised_def)
  next
    case (assignmentsRaise a s1 tas s2 db2 s3 db3)
    with assms show ?thesis by (simp add: raised_def)
  next
    case (returns a s1 tas s2 db2 s3 db3)
    with acc that show ?thesis by simp
  qed
qed

lemma generateAssignments_challengesOf:
  assumes ret: "raised (generateAssignments h rnd adminId db) = None"
    and du: "distinct (map u_id (users db))"
    and u: "u \<in> set (users db)" "u_isAdmin u = False"
  shows "\<exists>E M H. mset E = mset (getChallengesByDifficulty easy db) \<and>
           mset M = mset (getChallengesByDifficulty medium db) \<and>
           mset H = mset (getChallengesByDifficulty hard db) \<and>
           challengesOf (u_id u) (snd (generateAssignments h rnd adminId db)) =
             map c_id (take 2 E @ take 2 M @ take 2 H)"
proof -
  let ?allUsers = "filter (\<lambda>u. u_isAdmin u = False) (users db)"
  from ret show ?thesis
  proof (cases rule: generateAssignments_returnsE)
    case (1 a s1 tas s2 db2 s3 db3)
    have d: "distinct (map u_id ?allUsers)"
      using du by (rule distinct_map_filter)
    have m: "u \<in> set ?allUsers" using u by simp
    have "assignments db2 = []"
      using createTeams_frame[OF 1(4)] by simp
    then have "challengesOf (u_id u) db2 = []" by (simp add: challengesOf_def)
    with assignUsers_mine[OF 1(5) d m] 1(6) show ?thesis
      by (simp add: challengesOf_def)
  qed
qed

subsection \<open>Counting within the pools\<close>

lemma pool_ids_distinct:
  assumes "distinct (map c_id (challenges db))" and "mset E = mset (getChallengesByDifficulty d db)"
  shows "distinct (map c_id E)"
proof -
  have "distinct (map c_id (getChallengesByDifficulty d db))"
    unfolding getChallengesByDifficulty_def using assms(1) by (rule distinct_map_filter)
  moreover have "mset (map c_id E) = mset (map c_id (getChallengesByDifficulty d db))"
    using assms(2) by simp
  ultimately show ?thesis
    using mset_eq_imp_distinct_iff by blast
qed

lemma pool_ids_disjoint:
  assumes "distinct (map c_id (challenges db))" and "d \<noteq> d'"
  shows "c_id ` set (getChallengesByDifficulty d db) \<inter>
         c_id ` set (getChallengesByDifficulty d' db) = {}"
proof -
  have inj: "inj_on c_id (set (challenges db))"
    using assms(1) by (simp add: distinct_map)
  show ?thesis
  proof (rule ccontr)
    assume "\<not> ?thesis"
    then obtain c c' where c: "c \<in> set (getChallengesByDifficulty d db)"
      and c': "c' \<in> set (getChallengesByDifficulty d' db)" and eq: "c_id c = c_id c'"
      by auto
    from c c' have "c \<in> set (challenges db)" "c' \<in> set (challenges db)"
      "c_difficulty c = d" "c_difficulty c' = d'"
      by (simp_all add: getChallengesByDifficulty_def)
    with inj eq assms(2) show False
      by (auto dest: inj_onD)
  qed
qed

lemma filter_mem_all: "set xs \<subseteq> A \<Longrightarrow> filter (\<lambda>x. x \<in> A) xs = xs"
  by (induction xs) auto

lemma filter_mem_none: "set xs \<inter> A = {} \<Longrightarrow> filter (\<lambda>x. x \<in> A) xs = []"
  by (induction xs) auto

lemma take2_ids:
  assumes "mset E = mset pool"
  shows "set (map c_id (take 2 E)) \<subseteq> c_id ` set pool"
proof -
  from assms have "set E = set pool" by (rule mset_eq_setD)
  then show ?thesis using set_take_subset[of 2 E] by auto
qed

lemma quota_of_user:
  assumes dc: "distinct (map c_id (challenges db))"
    and len: "2 \<le> length (getChallengesByDifficulty easy db)"
             "2 \<le> length (getChallengesByDifficulty medium db)"
             "2 \<le> length (getChallengesByDifficulty hard db)"
    and E: "mset E = mset (getChallengesByDifficulty easy db)"
    and M: "mset M = mset (getChallengesByDifficulty medium db)"
    and H: "mset H = mset (getChallengesByDifficulty hard db)"
    and co: "challengesOf uid db' = map c_id (take 2 E @ take 2 M @ take 2 H)"
  shows "length (challengesOfIn uid (getChallengesByDifficulty easy db) db') = 2 \<and>
         length (challengesOfIn uid (getChallengesByDifficulty medium db) db') = 2 \<and>
         length (challengesOfIn uid (getChallengesByDifficulty hard db) db') = 2 \<and>
         length (challengesOf uid db') = 6 \<and>
         distinct (challengesOf uid db')"
proof -
  let ?ie = "c_id ` set (getChallengesByDifficulty easy db)"
  let ?im = "c_id ` set (getChallengesByDifficulty medium db)"
  let ?ih = "c_id ` set (getChallengesByDifficulty hard db)"
  let ?e = "map c_id (take 2 E)" and ?m = "map c_id (take 2 M)" and ?h = "map c_id (take 2 H)"
  have sE: "set ?e \<subseteq> ?ie" and sM: "set ?m \<subseteq> ?im" and sH: "set ?h \<subseteq> ?ih"
    using take2_ids[OF E] take2_ids[OF M] take2_ids[OF H] by simp_all
  have em: "?ie \<inter> ?im = {}" and eh: "?ie \<inter> ?ih = {}" and mh: "?im \<inter> ?ih = {}"
    using pool_ids_disjoint[OF dc, of easy medium] pool_ids_disjoint[OF dc, of easy hard]
      pool_ids_disjoint[OF dc, of medium hard] by simp_all
  have lE: "length ?e = 2" and lM: "length ?m = 2" and lH: "length ?h = 2"
    using len mset_eq_length[OF E] mset_eq_length[OF M] mset_eq_length[OF H] by simp_all
  have dE: "distinct ?e" and dM: "distinct ?m" and dH: "distinct ?h"
    using pool_ids_distinct[OF dc E] pool_ids_distinct[OF dc M] pool_ids_distinct[OF dc H]
    by (simp_all add: take_map[symmetric])
  have co': "challengesOf uid db' = ?e @ ?m @ ?h" using co by simp
  have fe: "filter (\<lambda>x. x \<in> ?ie) (?e @ ?m @ ?h) = ?e"
  proof -
    have "set ?m \<inter> ?ie = {}" "set ?h \<inter> ?ie = {}" using sM sH em eh by blast+
    then show ?thesis
      using filter_mem_all[OF sE] filter_mem_none[of ?m ?ie] filter_mem_none[of ?h ?ie]
      by (simp only: filter_append append_Nil2)
  qed
  have fm: "filter (\<lambda>x. x \<in> ?im) (?e @ ?m @ ?h) = ?m"
  proof -
    have "set ?e \<inter> ?im = {}" "set ?h \<inter> ?im = {}" using sE sH em mh by blast+
    then show ?thesis
      using filter_mem_all[OF sM] filter_mem_none[of ?e ?im] filter_mem_none[of ?h ?im]
      by (simp only: filter_append append_Nil2 append_Nil)
  qed
  have fh: "filter (\<lambda>x. x \<in> ?ih) (?e @ ?m @ ?h) = ?h"
  proof -
    have "set ?e \<inter> ?ih = {}" "set ?m \<inter> ?ih = {}" using sE sM eh mh by blast+
    then show ?thesis
      using filter_mem_all[OF sH] filter_mem_none[of ?e ?ih] filter_mem_none[of ?m ?ih]
      by (simp only: filter_append append_Nil2 append_Nil)
  qed
  have dist: "distinct (?e @ ?m @ ?h)"
  proof -
    have "set ?e \<inter> set ?m = {}" "set ?e \<inter> set ?h = {}" "set ?m \<inter> set ?h = {}"
      using sE sM sH em eh mh by blast+
    with dE dM dH show ?thesis by (simp only: distinct_append set_append) blast
  qed
  show ?thesis
    unfolding challengesOfIn_def co' fe fm fh
    using lE lM lH dist by (simp only: length_append) simp
qed

subsection \<open>Two runs on databases that agree up to identifiers\<close>

lemma idRel_eq_iff: "idRel delta a b \<Longrightarrow> idRel delta i j \<Longrightarrow> a = i \<longleftrightarrow> b = j"
  by (auto simp: idRel_def)

lemma idRel_Suc: "idRel delta i j \<Longrightarrow> idRel delta (Suc i) (Suc j)"
  by (simp add: idRel_def)

lemma sameUpToIds_createAssignment:
  "sameUpToIds delta d1 d2 \<Longrightarrow>
     sameUpToIds delta (createAssignment u c t s d1) (createAssignment u c t s d2)"
  by (simp add: sameUpToIds_def assignmentList_def idRel_Suc)

lemma sameUpToIds_addTeamMember:
  "sameUpToIds delta d1 d2 \<Longrightarrow> idRel delta t1 t2 \<Longrightarrow>
     sameUpToIds delta (addTeamMember t1 u d1) (addTeamMember t2 u d2)"
  by (simp add: sameUpToIds_def assignmentList_def idRel_Suc memberRel_def list_all2_appendI)

lemma sameUpToIds_fold_addTeamMember:
  "sameUpToIds delta d1 d2 \<Longrightarrow> idRel delta t1 t2 \<Longrightarrow>
     sameUpToIds delta (fold (\<lambda>u. addTeamMember t1 u) us d1) (fold (\<lambda>u. addTeamMember t2 u) us d2)"
  by (induction us arbitrary: d1 d2) (simp_all add: sameUpToIds_addTeamMember)

lemma sameUpToIds_createTeam:
  assumes "sameUpToIds delta d1 d2"
    and "createTeam nm ttl descr ch d1 = (r1, d1')"
    and "createTeam nm ttl descr ch d2 = (r2, d2')"
  shows "sameUpToIds delta d1' d2' \<and> idRel delta (t_id r1) (t_id r2)"
  using assms
  by (auto simp: createTeam_def Let_def sameUpToIds_def assignmentList_def idRel_Suc teamRel_def
      intro!: list_all2_appendI)

lemma createTeams_same:
  "sameUpToIds delta d1 d2 \<Longrightarrow>
   createTeams seed tcs tas i si d1 = (e1, s1, d1') \<Longrightarrow>
   createTeams seed tcs tas i si d2 = (e2, s2, d2') \<Longrightarrow>
     e1 = e2 \<and> s1 = s2 \<and> sameUpToIds delta d1' d2'"
proof (induction tas arbitrary: i si d1 d2)
  case Nil
  then show ?case by simp
next
  case (Cons ms rest)
  obtain r1 sa where a: "seededRandom seed si = (r1, sa)" by (cases "seededRandom seed si")
  obtain r2 sb where b: "seededRandom seed sa = (r2, sb)" by (cases "seededRandom seed sa")
  show ?case
  proof (cases "arrayAt identificationMissions (floorTimes r1 (length identificationMissions))")
    case None
    with Cons.prems a b show ?thesis by simp
  next
    case (Some mission)
    show ?thesis
    proof (cases "arrayAt tcs (floorTimes r2 (length tcs))")
      case None
      with Cons.prems a b Some show ?thesis by simp
    next
      case tc: (Some teamChallenge)
      obtain t1 x1 where c1:
        "createTeam (teamName i) (fst mission) (snd mission) (c_id teamChallenge) d1 = (t1, x1)"
        by (cases "createTeam (teamName i) (fst mission) (snd mission) (c_id teamChallenge) d1")
      obtain t2 x2 where c2:
        "createTeam (teamName i) (fst mission) (snd mission) (c_id teamChallenge) d2 = (t2, x2)"
        by (cases "createTeam (teamName i) (fst mission) (snd mission) (c_id teamChallenge) d2")
      from sameUpToIds_createTeam[OF Cons.prems(1) c1 c2]
      have rel: "sameUpToIds delta x1 x2" and ids: "idRel delta (t_id t1) (t_id t2)" by simp_all
      have f: "sameUpToIds delta (fold (\<lambda>u. addTeamMember (t_id t1) u) ms x1)
                 (fold (\<lambda>u. addTeamMember (t_id t2) u) ms x2)"
        using rel ids by (rule sameUpToIds_fold_addTeamMember)
      have r1': "createTeams seed tcs rest (Suc i) sb (fold (\<lambda>u. addTeamMember (t_id t1) u) ms x1) =
                  (e1, s1, d1')"
        using Cons.prems(2) a b Some tc c1 by simp
      have r2': "createTeams seed tcs rest (Suc i) sb (fold (\<lambda>u. addTeamMember (t_id t2) u) ms x2) =
                  (e2, s2, d2')"
        using Cons.prems(3) a b Some tc c2 by simp
      from Cons.IH[OF f r1' r2'] show ?thesis .
    qed
  qed
qed

lemma assignEasy_same:
  "sameUpToIds delta d1 d2 \<Longrightarrow> sameUpToIds delta (assignEasy usr cs d1) (assignEasy usr cs d2)"
  by (induction cs arbitrary: d1 d2) (simp_all add: sameUpToIds_createAssignment)

lemma assignWithTarget_same:
  "sameUpToIds delta d1 d2 \<Longrightarrow>
   assignWithTarget seed allUsers usr cs si d1 = (e1, s1, d1') \<Longrightarrow>
   assignWithTarget seed allUsers usr cs si d2 = (e2, s2, d2') \<Longrightarrow>
     e1 = e2 \<and> s1 = s2 \<and> sameUpToIds delta d1' d2'"
proof (induction cs arbitrary: si d1 d2)
  case Nil
  then show ?case by simp
next
  case (Cons c cs)
  show ?case
  proof (cases "c_needsTarget c")
    case False
    from Cons.prems(2,3) False
    have "assignWithTarget seed allUsers usr cs si
            (createAssignment (u_id usr) (c_id c) None not_started d1) = (e1, s1, d1')"
         "assignWithTarget seed allUsers usr cs si
            (createAssignment (u_id usr) (c_id c) None not_started d2) = (e2, s2, d2')"
      by simp_all
    from Cons.IH[OF sameUpToIds_createAssignment[OF Cons.prems(1)] this] show ?thesis .
  next
    case True
    obtain r sa where r: "seededRandom seed si = (r, sa)" by (cases "seededRandom seed si")
    let ?pt = "filter (\<lambda>u. u_id u \<noteq> u_id usr) allUsers"
    show ?thesis
    proof (cases "arrayAt ?pt (floorTimes r (length ?pt))")
      case None
      with Cons.prems True r show ?thesis by (simp add: Let_def)
    next
      case (Some tgt)
      from Cons.prems(2,3) True r Some
      have "assignWithTarget seed allUsers usr cs sa
              (createAssignment (u_id usr) (c_id c) (Some (u_id tgt)) not_started d1) = (e1, s1, d1')"
           "assignWithTarget seed allUsers usr cs sa
              (createAssignment (u_id usr) (c_id c) (Some (u_id tgt)) not_started d2) = (e2, s2, d2')"
        by (simp_all add: Let_def)
      from Cons.IH[OF sameUpToIds_createAssignment[OF Cons.prems(1)] this] show ?thesis .
    qed
  qed
qed

lemma assignUsers_same:
  "sameUpToIds delta d1 d2 \<Longrightarrow>
   assignUsers seed allUsers es ms hs us si d1 = (e1, s1, d1') \<Longrightarrow>
   assignUsers seed allUsers es ms hs us si d2 = (e2, s2, d2') \<Longrightarrow>
     e1 = e2 \<and> s1 = s2 \<and> sameUpToIds delta d1' d2'"
proof (induction us arbitrary: si d1 d2)
  case Nil
  then show ?case by simp
next
  case (Cons v vs)
  obtain se sa where a: "arraySort seed es si = (se, sa)" by (cases "arraySort seed es si")
  obtain sm sb where b: "arraySort seed ms sa = (sm, sb)" by (cases "arraySort seed ms sa")
  obtain m1 t1 x1 where w1:
    "assignWithTarget seed allUsers v (take 2 sm) sb (assignEasy v (take 2 se) d1) = (m1, t1, x1)"
    by (cases "assignWithTarget seed allUsers v (take 2 sm) sb (assignEasy v (take 2 se) d1)")
  obtain m2 t2 x2 where w2:
    "assignWithTarget seed allUsers v (take 2 sm) sb (assignEasy v (take 2 se) d2) = (m2, t2, x2)"
    by (cases "assignWithTarget seed allUsers v (take 2 sm) sb (assignEasy v (take 2 se) d2)")
  from assignWithTarget_same[OF assignEasy_same[OF Cons.prems(1)] w1 w2]
  have m: "m2 = m1" "t2 = t1" and relx: "sameUpToIds delta x1 x2" by simp_all
  have w2': "assignWithTarget seed allUsers v (take 2 sm) sb (assignEasy v (take 2 se) d2) =
               (m1, t1, x2)"
    using w2 m by simp
  show ?case
  proof (cases m1)
    case (Some err)
    from Cons.prems(2) a b w1 Some have "e1 = Some err \<and> s1 = t1 \<and> d1' = x1" by simp
    moreover from Cons.prems(3) a b w2' Some have "e2 = Some err \<and> s2 = t1 \<and> d2' = x2" by simp
    ultimately show ?thesis using relx by simp
  next
    case None
    obtain sh sc where c: "arraySort seed hs t1 = (sh, sc)" by (cases "arraySort seed hs t1")
    obtain h1 q1 y1 where v1:
      "assignWithTarget seed allUsers v (take 2 sh) sc x1 = (h1, q1, y1)"
      by (cases "assignWithTarget seed allUsers v (take 2 sh) sc x1")
    obtain h2 q2 y2 where v2:
      "assignWithTarget seed allUsers v (take 2 sh) sc x2 = (h2, q2, y2)"
      by (cases "assignWithTarget seed allUsers v (take 2 sh) sc x2")
    from assignWithTarget_same[OF relx v1 v2]
    have h: "h2 = h1" "q2 = q1" and rely: "sameUpToIds delta y1 y2" by simp_all
    have v2': "assignWithTarget seed allUsers v (take 2 sh) sc x2 = (h1, q1, y2)"
      using v2 h by simp
    show ?thesis
    proof (cases h1)
      case (Some err)
      from Cons.prems(2) a b w1 None c v1 Some
      have "e1 = Some err \<and> s1 = q1 \<and> d1' = y1" by simp
      moreover from Cons.prems(3) a b w2' None c v2' Some
      have "e2 = Some err \<and> s2 = q1 \<and> d2' = y2" by simp
      ultimately show ?thesis using rely by simp
    next
      case None2: None
      from Cons.prems(2) a b w1 None c v1 None2
      have r1: "assignUsers seed allUsers es ms hs vs q1 y1 = (e1, s1, d1')" by simp
      from Cons.prems(3) a b w2' None c v2' None2
      have r2: "assignUsers seed allUsers es ms hs vs q1 y2 = (e2, s2, d2')" by simp
      from Cons.IH[OF rely r1 r2] show ?thesis .
    qed
  qed
qed

lemma members_same:
  "list_all2 (memberRel delta) ms1 ms2 \<Longrightarrow> idRel delta i j \<Longrightarrow>
     map tm_userId (filter (\<lambda>m. tm_teamId m = i) ms1) =
     map tm_userId (filter (\<lambda>m. tm_teamId m = j) ms2)"
proof (induction rule: list_all2_induct)
  case Nil
  then show ?case by simp
next
  case (Cons m1 ms1 m2 ms2)
  from Cons.hyps(1) Cons.prems
  have "tm_teamId m1 = i \<longleftrightarrow> tm_teamId m2 = j" and "tm_userId m1 = tm_userId m2"
    by (auto simp: memberRel_def dest: idRel_eq_iff)
  with Cons.IH[OF Cons.prems] show ?case by simp
qed

lemma sameUpToIds_teamComposition:
  assumes "sameUpToIds delta d1 d2"
  shows "teamComposition d1 = teamComposition d2"
proof -
  from assms have ms: "list_all2 (memberRel delta) (teamMembers d1) (teamMembers d2)"
    and ts: "list_all2 (teamRel delta) (teams d1) (teams d2)"
    by (simp_all add: sameUpToIds_def)
  have "list_all2 (teamRel delta) ts1 ts2 \<Longrightarrow>
        map (\<lambda>t. (t_name t, t_identificationMissionTitle t, t_identificationMissionDescription t,
               t_identificationMissionValidated t, t_teamChallengeId t,
               map tm_userId (filter (\<lambda>m. tm_teamId m = t_id t) (teamMembers d1)))) ts1 =
        map (\<lambda>t. (t_name t, t_identificationMissionTitle t, t_identificationMissionDescription t,
               t_identificationMissionValidated t, t_teamChallengeId t,
               map tm_userId (filter (\<lambda>m. tm_teamId m = t_id t) (teamMembers d2)))) ts2"
    for ts1 ts2
  proof (induction rule: list_all2_induct)
    case Nil
    then show ?case by simp
  next
    case (Cons t1 ts1 t2 ts2)
    from Cons.hyps(1) have "idRel delta (t_id t1) (t_id t2)" by (simp add: teamRel_def)
    from members_same[OF ms this] Cons.hyps(1) Cons.IH show ?case
      by (simp add: teamRel_def)
  qed
  from this[OF ts] show ?thesis by (simp add: teamComposition_def)
qed

subsection \<open>The range of a draw\<close>

lemma hexValue_less: "hexValue c = Some v \<Longrightarrow> v < 16"
  by (auto simp: hexValue_def Let_def split: if_splits)

lemma parseDigits_less:
  "parseDigits acc cs = Some n \<Longrightarrow> (case acc of None \<Rightarrow> 0 | Some a \<Rightarrow> a) < 16 ^ k \<Longrightarrow>
     n < 16 ^ (k + length cs)"
proof (induction cs arbitrary: acc k)
  case Nil
  then show ?case by simp
next
  case (Cons c cs)
  show ?case
  proof (cases "hexValue c")
    case None
    with Cons.prems have "n < (16::nat) ^ k" by simp
    also have "(16::nat) ^ k \<le> 16 ^ (k + length (c # cs))"
      by (rule power_increasing) simp_all
    finally show ?thesis .
  next
    case (Some v)
    let ?a = "case acc of None \<Rightarrow> 0 | Some a \<Rightarrow> a"
    from Some have v: "v < 16" by (rule hexValue_less)
    from Cons.prems(2) have "Suc ?a \<le> 16 ^ k" by simp
    then have "Suc ?a * 16 \<le> 16 ^ k * 16" by (rule mult_le_mono1)
    with v have b: "?a * 16 + v < 16 ^ Suc k" by simp
    from Cons.prems(1) Some have "parseDigits (Some (?a * 16 + v)) cs = Some n" by simp
    from Cons.IH[OF this, of "Suc k"] b show ?thesis by simp
  qed
qed

lemma parseInt16_less: "parseInt16 s = Some n \<Longrightarrow> n < 16 ^ length s"
  using parseDigits_less[of None s n 0] by (simp add: parseInt16_def)

lemma seededRandom_range:
  assumes "fst (seededRandom seed si) = Some v"
  shows "0 \<le> v \<and> v \<le> 1"
proof -
  let ?w = "substr seed (si mod length seed) 8"
  from assms have "map_option (\<lambda>n. real n / 4294967295) (parseInt16 ?w) = Some v"
    by (simp add: seededRandom_def)
  then obtain n where n: "parseInt16 ?w = Some n" and v: "real n / 4294967295 = v"
    unfolding map_option_eq_Some by blast
  have "length ?w \<le> 8" by (simp add: substr_def)
  then have "(16::nat) ^ length ?w \<le> 16 ^ 8" by (rule power_increasing) simp
  with parseInt16_less[OF n] have "n < 16 ^ 8" by linarith
  then have "n \<le> 4294967295" by simp
  then have "real n \<le> 4294967295" by (metis of_nat_le_iff of_nat_numeral)
  with v show ?thesis by auto
qed

lemma floorTimes_le:
  assumes "floorTimes (fst (seededRandom seed si)) k = Some j"
  shows "j \<le> k"
proof -
  from assms obtain v where v: "fst (seededRandom seed si) = Some v"
    and j: "nat \<lfloor>v * real k\<rfloor> = j"
    unfolding floorTimes_def map_option_eq_Some by blast
  from seededRandom_range[OF v] have "v * real k \<le> 1 * real k"
    by (intro mult_right_mono) simp_all
  then have "\<lfloor>v * real k\<rfloor> \<le> int k" by (simp add: floor_le_iff)
  with j show ?thesis by linarith
qed

subsection \<open>A call that must return\<close>

lemma seededRandom_snd [simp]: "snd (seededRandom seed si) = si + 8"
  by (simp add: seededRandom_def)

lemma draw_below_one:
  assumes "drawsBelowOne seed" and "si mod 8 = 0"
  obtains v where "seededRandom seed si = (Some v, si + 8)" and "0 \<le> v" and "v < 1"
proof -
  let ?L = "length seed"
  from assms(1) have L: "0 < ?L" and L8: "8 dvd ?L"
    and all: "list_all (\<lambda>k. case fst (seededRandom seed (8 * k)) of None \<Rightarrow> False | Some v \<Rightarrow> v < 1)
                [0..<?L div 8]"
    by (auto simp: drawsBelowOne_def)
  from assms(2) have "8 dvd si" by (simp add: dvd_eq_mod_eq_0)
  with L8 have "8 dvd si mod ?L" by (simp add: dvd_mod)
  then obtain k where k: "si mod ?L = 8 * k" by (auto elim: dvdE)
  from L8 obtain m where m: "?L = 8 * m" by (auto elim: dvdE)
  have "si mod ?L < ?L" using L by simp
  with k m have km: "k < m" by simp
  from m have "?L div 8 = m" by simp
  with km have kin: "k \<in> set [0..<?L div 8]" by simp
  have "(8 * k) mod ?L = 8 * k" using k \<open>si mod ?L < ?L\<close> by simp
  then have same: "fst (seededRandom seed si) = fst (seededRandom seed (8 * k))"
    using k by (simp add: seededRandom_def)
  from all kin have "case fst (seededRandom seed (8 * k)) of None \<Rightarrow> False | Some v \<Rightarrow> v < 1"
    by (simp add: list_all_iff)
  with same have "case fst (seededRandom seed si) of None \<Rightarrow> False | Some v \<Rightarrow> v < 1"
    by simp
  then obtain v where v: "fst (seededRandom seed si) = Some v" and lt: "v < 1"
    by (cases "fst (seededRandom seed si)") simp_all
  from seededRandom_range[OF v] have "0 \<le> v" by simp
  moreover have "seededRandom seed si = (Some v, si + 8)"
    using v by (simp add: prod_eq_iff)
  ultimately show thesis using lt that by blast
qed

lemma floorTimes_below:
  assumes "0 \<le> v" and "v < 1" and "0 < k"
  obtains j where "floorTimes (Some v) k = Some j" and "j < k"
proof -
  have "v * real k < 1 * real k" using assms by (intro mult_strict_right_mono) simp_all
  then have "\<lfloor>v * real k\<rfloor> < int k" by (simp add: floor_less_iff)
  moreover have "0 \<le> \<lfloor>v * real k\<rfloor>" using assms(1) by simp
  ultimately have "nat \<lfloor>v * real k\<rfloor> < k" by (simp add: nat_less_iff)
  then show thesis using that by (simp add: floorTimes_def)
qed

lemma arrayAt_drawn:
  assumes "0 \<le> v" and "v < 1" and "xs \<noteq> []"
  obtains x where "arrayAt xs (floorTimes (Some v) (length xs)) = Some x"
proof -
  from assms(3) have "0 < length xs" by simp
  from floorTimes_below[OF assms(1,2) this] obtain j where
    "floorTimes (Some v) (length xs) = Some j" "j < length xs" by blast
  then show thesis using that by (simp add: arrayAt_def)
qed

lemma swapCells_defined:
  assumes "i < length (fst a)" and "j < length (fst a)" and "list_all (\<lambda>x. x \<noteq> None) (fst a)"
  shows "list_all (\<lambda>x. x \<noteq> None) (fst (swapCells a i (Some j))) \<and>
         length (fst (swapCells a i (Some j))) = length (fst a)"
proof -
  have eq: "fst (swapCells a i (Some j)) = ((fst a)[i := fst a ! j])[j := fst a ! i]"
    using assms(1,2) by (simp add: swapCells_def cell_def arraySet_def Let_def)
  have "set (((fst a)[i := fst a ! j])[j := fst a ! i]) \<subseteq> set (fst a)"
    using assms(1,2) set_update_subset_insert[of "(fst a)[i := fst a ! j]" j "fst a ! i"]
      set_update_subset_insert[of "fst a" i "fst a ! j"] nth_mem[of i "fst a"] nth_mem[of j "fst a"]
    by auto
  with assms(3) eq show ?thesis by (auto simp: list_all_iff)
qed

lemma shuffleLoop_defined:
  "drawsBelowOne seed \<Longrightarrow> si mod 8 = 0 \<Longrightarrow> i \<le> length (fst a) - 1 \<Longrightarrow>
   list_all (\<lambda>x. x \<noteq> None) (fst a) \<Longrightarrow> shuffleLoop seed i a si = (a', si') \<Longrightarrow>
     list_all (\<lambda>x. x \<noteq> None) (fst a') \<and> si' mod 8 = 0"
proof (induction i arbitrary: a si)
  case 0
  then show ?case by simp
next
  case (Suc i)
  from Suc.prems(3) have i: "Suc i < length (fst a)" by simp
  from draw_below_one[OF Suc.prems(1,2)] obtain v where
    v: "seededRandom seed si = (Some v, si + 8)" "0 \<le> v" "v < 1" by blast
  from floorTimes_below[OF v(2,3), of "Suc i + 1"] obtain j where
    j: "floorTimes (Some v) (Suc i + 1) = Some j" "j < Suc i + 1" by auto
  with i have jl: "j < length (fst a)" by simp
  let ?a = "swapCells a (Suc i) (Some j)"
  from swapCells_defined[OF i jl Suc.prems(4)]
  have ok: "list_all (\<lambda>x. x \<noteq> None) (fst ?a)" and len: "length (fst ?a) = length (fst a)"
    by simp_all
  have run: "shuffleLoop seed i ?a (si + 8) = (a', si')"
    using Suc.prems(5) v(1) j(1) by simp
  have idx: "(si + 8) mod 8 = 0" using Suc.prems(2) by presburger
  have le: "i \<le> length (fst ?a) - 1" using i len by simp
  from Suc.IH[OF Suc.prems(1) idx le ok run] show ?case .
qed

lemma those_defined: "list_all (\<lambda>x. x \<noteq> None) xs \<Longrightarrow> \<exists>ys. those xs = Some ys"
  by (induction xs) auto

lemma teamLoop_defined:
  "list_all (\<lambda>x. x \<noteq> None) a \<Longrightarrow> \<exists>tas. teamLoop a i acc = Inr tas"
proof (induction a i acc rule: teamLoop.induct)
  case (1 a i acc)
  show ?case
  proof (cases "i < length a")
    case False
    then show ?thesis by (simp add: teamLoop.simps)
  next
    case True
    let ?members = "take (min 3 (length a - i)) (drop i a)"
    have "set ?members \<subseteq> set a"
      using set_take_subset[of "min 3 (length a - i)" "drop i a"] set_drop_subset[of i a] by blast
    with "1.prems" have "list_all (\<lambda>x. x \<noteq> None) ?members" by (auto simp: list_all_iff)
    from those_defined[OF this] obtain us where us: "those ?members = Some us" by blast
    from "1.IH"[OF True refl refl us "1.prems"] True us show ?thesis
      by (subst teamLoop.simps) (simp add: Let_def)
  qed
qed

lemma createTeams_defined:
  "drawsBelowOne seed \<Longrightarrow> si mod 8 = 0 \<Longrightarrow> tcs \<noteq> [] \<Longrightarrow>
     \<exists>si' db'. createTeams seed tcs tas i si db = (None, si', db') \<and> si' mod 8 = 0"
proof (induction tas arbitrary: i si db)
  case Nil
  then show ?case by simp
next
  case (Cons ms rest)
  from draw_below_one[OF Cons.prems(1,2)] obtain v1 where
    v1: "seededRandom seed si = (Some v1, si + 8)" "0 \<le> v1" "v1 < 1" by blast
  have i1: "(si + 8) mod 8 = 0" using Cons.prems(2) by presburger
  from draw_below_one[OF Cons.prems(1) i1] obtain v2 where
    v2: "seededRandom seed (si + 8) = (Some v2, si + 8 + 8)" "0 \<le> v2" "v2 < 1" by blast
  have i2: "(si + 8 + 8) mod 8 = 0" using Cons.prems(2) by presburger
  have "identificationMissions \<noteq> []" by (simp add: identificationMissions_def)
  from arrayAt_drawn[OF v1(2,3) this] obtain mission where
    m: "arrayAt identificationMissions (floorTimes (Some v1) (length identificationMissions)) =
          Some mission" by blast
  from arrayAt_drawn[OF v2(2,3) Cons.prems(3)] obtain tc where
    tc: "arrayAt tcs (floorTimes (Some v2) (length tcs)) = Some tc" by blast
  obtain t d where ct: "createTeam (teamName i) (fst mission) (snd mission) (c_id tc) db = (t, d)"
    by (cases "createTeam (teamName i) (fst mission) (snd mission) (c_id tc) db")
  from Cons.IH[OF Cons.prems(1) i2 Cons.prems(3),
      of "Suc i" "fold (\<lambda>userId. addTeamMember (t_id t) userId) ms d"]
  show ?case using v1(1) v2(1) m tc ct by simp
qed

lemma insertSeeded_index:
  "si mod 8 = 0 \<Longrightarrow> insertSeeded seed x ys si = (zs, si') \<Longrightarrow> si' mod 8 = 0"
proof (induction ys arbitrary: si zs si')
  case Nil
  then show ?case by simp
next
  case (Cons y ys)
  obtain r where r: "seededRandom seed si = (r, si + 8)"
    by (cases "seededRandom seed si") (use seededRandom_snd[of seed si] in auto)
  have i1: "(si + 8) mod 8 = 0" using Cons.prems(1) by presburger
  show ?case
  proof (cases "case r of None \<Rightarrow> False | Some v \<Rightarrow> v - 0.5 < 0")
    case True
    with Cons.prems(2) r i1 show ?thesis by auto
  next
    case False
    obtain ws s2 where w: "insertSeeded seed x ys (si + 8) = (ws, s2)"
      by (cases "insertSeeded seed x ys (si + 8)")
    from Cons.IH[OF i1 w] Cons.prems(2) r False w show ?thesis by auto
  qed
qed

lemma sortLoop_index:
  "si mod 8 = 0 \<Longrightarrow> sortLoop seed xs placed si = (zs, si') \<Longrightarrow> si' mod 8 = 0"
proof (induction xs arbitrary: placed si)
  case Nil
  then show ?case by simp
next
  case (Cons x xs)
  obtain p s1 where p: "insertSeeded seed x placed si = (p, s1)"
    by (cases "insertSeeded seed x placed si")
  from insertSeeded_index[OF Cons.prems(1) p] have i1: "s1 mod 8 = 0" .
  from Cons.prems(2) p have run: "sortLoop seed xs p s1 = (zs, si')" by simp
  from Cons.IH[OF i1 run] show ?case .
qed

lemma arraySort_index:
  "si mod 8 = 0 \<Longrightarrow> arraySort seed xs si = (zs, si') \<Longrightarrow> si' mod 8 = 0"
  using sortLoop_index[of si seed xs "[]" zs si'] by (simp add: arraySort_def)

lemma assignWithTarget_defined:
  "drawsBelowOne seed \<Longrightarrow> si mod 8 = 0 \<Longrightarrow> filter (\<lambda>u. u_id u \<noteq> u_id usr) allUsers \<noteq> [] \<Longrightarrow>
     \<exists>si' db'. assignWithTarget seed allUsers usr cs si db = (None, si', db') \<and> si' mod 8 = 0"
proof (induction cs arbitrary: si db)
  case Nil
  then show ?case by simp
next
  case (Cons c cs)
  show ?case
  proof (cases "c_needsTarget c")
    case False
    with Cons.IH[OF Cons.prems, of "createAssignment (u_id usr) (c_id c) None not_started db"]
    show ?thesis by simp
  next
    case True
    from draw_below_one[OF Cons.prems(1,2)] obtain v where
      v: "seededRandom seed si = (Some v, si + 8)" "0 \<le> v" "v < 1" by blast
    have i1: "(si + 8) mod 8 = 0" using Cons.prems(2) by presburger
    from arrayAt_drawn[OF v(2,3) Cons.prems(3)] obtain tgt where
      t: "arrayAt (filter (\<lambda>u. u_id u \<noteq> u_id usr) allUsers)
            (floorTimes (Some v) (length (filter (\<lambda>u. u_id u \<noteq> u_id usr) allUsers))) = Some tgt"
      by blast
    from Cons.IH[OF Cons.prems(1) i1 Cons.prems(3),
        of "createAssignment (u_id usr) (c_id c) (Some (u_id tgt)) not_started db"]
    show ?thesis using True v(1) t by (simp add: Let_def)
  qed
qed

lemma assignUsers_defined:
  "drawsBelowOne seed \<Longrightarrow> si mod 8 = 0 \<Longrightarrow>
   \<forall>u\<in>set us. filter (\<lambda>v. u_id v \<noteq> u_id u) allUsers \<noteq> [] \<Longrightarrow>
     \<exists>si' db'. assignUsers seed allUsers es ms hs us si db = (None, si', db') \<and> si' mod 8 = 0"
proof (induction us arbitrary: si db)
  case Nil
  then show ?case by simp
next
  case (Cons u us)
  from Cons.prems(3) have tu: "filter (\<lambda>v. u_id v \<noteq> u_id u) allUsers \<noteq> []"
    and rest: "\<forall>u\<in>set us. filter (\<lambda>v. u_id v \<noteq> u_id u) allUsers \<noteq> []" by simp_all
  obtain se s1 where a: "arraySort seed es si = (se, s1)" by (cases "arraySort seed es si")
  from arraySort_index[OF Cons.prems(2) a] have i1: "s1 mod 8 = 0" .
  obtain sm s2 where b: "arraySort seed ms s1 = (sm, s2)" by (cases "arraySort seed ms s1")
  from arraySort_index[OF i1 b] have i2: "s2 mod 8 = 0" .
  from assignWithTarget_defined[OF Cons.prems(1) i2 tu, of "take 2 sm" "assignEasy u (take 2 se) db"]
  obtain s3 d2 where w1:
    "assignWithTarget seed allUsers u (take 2 sm) s2 (assignEasy u (take 2 se) db) = (None, s3, d2)"
    and i3: "s3 mod 8 = 0" by auto
  obtain sh s4 where c: "arraySort seed hs s3 = (sh, s4)" by (cases "arraySort seed hs s3")
  from arraySort_index[OF i3 c] have i4: "s4 mod 8 = 0" .
  from assignWithTarget_defined[OF Cons.prems(1) i4 tu, of "take 2 sh" d2]
  obtain s5 d3 where w2: "assignWithTarget seed allUsers u (take 2 sh) s4 d2 = (None, s5, d3)"
    and i5: "s5 mod 8 = 0" by auto
  from Cons.IH[OF Cons.prems(1) i5 rest, of d3] a b w1 c w2 show ?case by simp
qed

lemma others_exist:
  assumes "distinct (map u_id xs)" and "2 \<le> length xs" and "u \<in> set xs"
  shows "filter (\<lambda>v. u_id v \<noteq> u_id u) xs \<noteq> []"
proof
  assume "filter (\<lambda>v. u_id v \<noteq> u_id u) xs = []"
  then have "\<forall>v\<in>set xs. u_id v = u_id u" by (simp add: filter_empty_conv)
  then have "set (map u_id xs) \<subseteq> {u_id u}" by auto
  then have "card (set (map u_id xs)) \<le> card {u_id u}" by (intro card_mono) simp_all
  moreover have "card (set (map u_id xs)) = length xs"
    using distinct_card[OF assms(1)] by simp
  ultimately show False using assms(2) by simp
qed

lemma generateAssignments_returns:
  assumes acc: "databaseAccepts adminId db"
    and draws: "drawsBelowOne (toStringHex rnd)"
    and tp: "getChallengesByDifficulty team db \<noteq> []"
    and du: "distinct (map u_id (users db))"
    and two: "2 \<le> length (filter (\<lambda>u. u_isAdmin u = False) (users db))"
  shows "raised (generateAssignments h rnd adminId db) = None"
proof -
  let ?seed = "toStringHex rnd"
  let ?U = "filter (\<lambda>u. u_isAdmin u = False) (users db)"
  have dU: "distinct (map u_id ?U)" using du by (rule distinct_map_filter)
  have targets: "\<forall>u\<in>set ?U. filter (\<lambda>v. u_id v \<noteq> u_id u) ?U \<noteq> []"
    using others_exist[OF dU two] by blast
  have z: "(0::nat) mod 8 = 0" by simp
  have allSome: "list_all (\<lambda>x. x \<noteq> None) (fst (map Some ?U, None :: user option))"
    by (simp add: list_all_iff)
  have le: "length ?U - 1 \<le> length (fst (map Some ?U, None :: user option)) - 1" by simp
  from acc show ?thesis
  proof (cases rule: generateAssignments_acceptedE[of adminId db rnd h])
    case (shuffleRaises a s1)
    from shuffleLoop_defined[OF draws z le allSome shuffleRaises(1)]
    have "list_all (\<lambda>x. x \<noteq> None) (fst a)" by simp
    from teamLoop_defined[OF this, of 0 "[]"] shuffleRaises(2) show ?thesis by simp
  next
    case (teamsRaise a s1 tas s2 db2)
    from shuffleLoop_defined[OF draws z le allSome teamsRaise(1)] have "s1 mod 8 = 0" by simp
    from createTeams_defined[OF draws this tp, of tas 0 "afterSeedInsert h rnd adminId db"]
      teamsRaise(3) show ?thesis by simp
  next
    case (assignmentsRaise a s1 tas s2 db2 s3 db3)
    from shuffleLoop_defined[OF draws z le allSome assignmentsRaise(1)] have "s1 mod 8 = 0" by simp
    from createTeams_defined[OF draws this tp, of tas 0 "afterSeedInsert h rnd adminId db"]
      assignmentsRaise(3) have "s2 mod 8 = 0" by simp
    from assignUsers_defined[OF draws this targets,
        of "getChallengesByDifficulty easy db" "getChallengesByDifficulty medium db"
           "getChallengesByDifficulty hard db" db2]
      assignmentsRaise(4) show ?thesis by simp
  next
    case (returns a s1 tas s2 db2 s3 db3)
    then show ?thesis by (simp add: raised_def)
  qed
qed

lemma drawsBelowOne_bytes44: "drawsBelowOne (toStringHex bytes44)"
proof -
  have "case fst (seededRandom (toStringHex bytes44) (8 * k)) of None \<Rightarrow> False | Some v \<Rightarrow> v < 1"
    for k
    by (simp add: seededRandom_bytes44)
  then show ?thesis
    by (simp add: drawsBelowOne_def list_all_iff) (simp add: toStringHex_bytes44)
qed


lemma sample_accepts:
  "databaseAccepts 99 sampleDb"
  "databaseAccepts 99 noEasyDb"
  "databaseAccepts 98 otherDb"
  "databaseAccepts 99 (sampleDb\<lparr>assignmentSeeds := []\<rparr>)"
  "proofsReferNothing (sampleDb\<lparr>assignmentSeeds := []\<rparr>)"
  by (simp_all add: databaseAccepts_def assignmentsReferenced_def teamsReferenced_def
        proofsReferNothing_def sampleDb_def noEasyDb_def otherDb_def mkUser_def)

subsection \<open>Successive calls\<close>

lemma proofsReferNothing_accepts:
  "proofsReferNothing db \<Longrightarrow> adminId \<in> u_id ` set (users db) \<Longrightarrow> databaseAccepts adminId db"
  by (auto simp: proofsReferNothing_def databaseAccepts_def assignmentsReferenced_def
        teamsReferenced_def)

lemma proofsReferNothing_after:
  "proofsReferNothing (snd (generateAssignments h rnd adminId db)) = proofsReferNothing db"
  by (simp add: proofsReferNothing_def generateAssignments_users_proofs)

lemma generateMany_seeds:
  "calls \<noteq> [] \<Longrightarrow> proofsReferNothing db \<Longrightarrow> \<forall>c\<in>set calls. snd c \<in> u_id ` set (users db) \<Longrightarrow>
     map s_isActive (assignmentSeeds (generateMany h calls db)) =
       replicate (length (assignmentSeeds db) + length calls - 1) False @ [True] \<and>
     map s_seed (assignmentSeeds (generateMany h calls db)) =
       map s_seed (assignmentSeeds db) @ map (\<lambda>c. toStringHex (fst c)) calls"
proof (induction calls arbitrary: db rule: list_nonempty_induct)
  case (single c)
  then have "databaseAccepts (snd c) db" by (simp add: proofsReferNothing_accepts)
  then show ?case
    by (simp add: generateAssignments_seeds o_def map_replicate_const storedSeedRecord_def)
next
  case (cons c calls)
  let ?db = "snd (generateAssignments h (fst c) (snd c) db)"
  from cons.prems have acc: "databaseAccepts (snd c) db" by (simp add: proofsReferNothing_accepts)
  have p: "proofsReferNothing ?db" using cons.prems(1) by (simp add: proofsReferNothing_after)
  have u: "\<forall>c\<in>set calls. snd c \<in> u_id ` set (users ?db)"
    using cons.prems(2) by (simp add: generateAssignments_users_proofs)
  from cons.IH[OF p u] show ?case
    by (simp add: generateAssignments_seeds[OF acc] o_def storedSeedRecord_def)
qed

section \<open>Seed verification\<close>

text \<open>
  Claim C8 says that \<open>verifySeed\<close> never raises an error, for every candidate string. The
  candidate reaches the query unchecked, and the database refuses a text that contains the
  character U+0000: for such a candidate the call raises, although no stored record has
  that hash.
\<close>

theorem verifySeed_raises_counterexample:
  "\<not> (\<exists>s\<in>set (assignmentSeeds sampleDb). s_seedHash s = ''abc'' @ [CHR 0x00]) \<and>
   verifySeed (''abc'' @ [CHR 0x00]) sampleDb = Inl DatabaseError"
  by (simp add: verifySeed_def sampleDb_def)

text \<open>
  Claim C8 as amended. For every stored state and every candidate hash that does not contain
  U+0000, \<open>verifySeed\<close> returns, without raising, true exactly when some stored seed record,
  active or not, has a \<open>seedHash\<close> equal to the candidate as a string (so with the same
  letter case); a hash that is not found gives false.
\<close>

theorem verifySeed_iff_stored:
  assumes "CHR 0x00 \<notin> set candidateHash"
  shows "verifySeed candidateHash db =
           Inr (\<exists>s\<in>set (assignmentSeeds db). s_seedHash s = candidateHash)"
proof (cases "filter (\<lambda>s. s_seedHash s = candidateHash) (assignmentSeeds db)")
  case Nil
  with assms show ?thesis
    by (simp add: verifySeed_def filter_empty_conv)
next
  case (Cons r rs)
  then have "r \<in> set (filter (\<lambda>s. s_seedHash s = candidateHash) (assignmentSeeds db))"
    by simp
  then have "r \<in> set (assignmentSeeds db) \<and> s_seedHash r = candidateHash"
    by simp
  with Cons assms show ?thesis
    by (auto simp: verifySeed_def)
qed

theorem verifySeed_iff_stored_witness:
  "CHR 0x00 \<notin> set ''abc'' \<and> CHR 0x00 \<notin> set ''ABC'' \<and>
   verifySeed ''abc'' sampleDb = Inr True \<and> verifySeed ''ABC'' sampleDb = Inr False \<and>
   verifySeed ''abc'' (snd (generateAssignments sampleHash bytes44 99 sampleDb)) = Inr True"
proof -
  have a: "CHR 0x00 \<notin> set ''abc''" and b: "CHR 0x00 \<notin> set ''ABC''" by simp_all
  have kept: "\<exists>s\<in>set (assignmentSeeds (snd (generateAssignments sampleHash bytes44 99 sampleDb))).
                s_seedHash s = ''abc''"
    by (simp add: generateAssignments_seeds[OF sample_accepts(1)]) (simp add: sampleDb_def)
  have "verifySeed ''abc'' sampleDb = Inr True" "verifySeed ''ABC'' sampleDb = Inr False"
    using verifySeed_iff_stored[OF a, of sampleDb] verifySeed_iff_stored[OF b, of sampleDb]
    by (simp_all add: sampleDb_def)
  moreover have "verifySeed ''abc'' (snd (generateAssignments sampleHash bytes44 99 sampleDb)) =
                   Inr True"
    using verifySeed_iff_stored[OF a, of "snd (generateAssignments sampleHash bytes44 99 sampleDb)"]
      kept by simp
  ultimately show ?thesis using a b by simp
qed

section \<open>The stream of draws\<close>

text \<open>
  Claim C3 says that every draw is at least 0 and strictly below 1. The code divides the
  parsed window by \<open>0xffffffff\<close>, so a window \<open>ffffffff\<close> gives exactly 1: with a buffer of
  bytes \<open>0xFF\<close> the first draw is 1, the shuffle index \<open>Math.floor(1 * (i + 1))\<close> leaves the
  array, and the call raises a TypeError.
\<close>

theorem seededRandom_reaches_one:
  "fst (seededRandom (toStringHex bytesFF) 0) = Some 1 \<and>
   raised (generateAssignments sampleHash bytesFF 99 sampleDb) = Some TypeError"
  by (simp add: seededRandom_bytesFF sample_run_FF)

section \<open>Team formation\<close>

text \<open>
  Claim C1 says that every team has 2 or 3 members. The partition loop takes
  \<open>Math.min(3, length - i)\<close> users, so four participants are split into a team of three
  and a team of one: the call returns normally and the team sizes are 3 and 1.
\<close>

theorem four_participants_team_of_one:
  "length (filter (\<lambda>u. u_isAdmin u = False) (users sampleDb)) = 4 \<and>
   raised (generateAssignments sampleHash bytes44 99 sampleDb) = None \<and>
   teamSizes (snd (generateAssignments sampleHash bytes44 99 sampleDb)) = [3, 1]"
  by (simp add: sample_run_raised sample_run_teams) (simp add: sampleDb_def mkUser_def)

section \<open>Individual assignments\<close>

text \<open>
  Claim C2 says that a drawn challenge with \<open>needsTarget\<close> gets a target whatever its
  pool. The loop over the easy challenges never looks at the flag: the easy challenge 10
  of the sample bank needs a target, and every participant receives it without one.
\<close>

theorem easy_challenge_gets_no_target:
  "map (\<lambda>c. (c_id c, c_needsTarget c)) (getChallengesByDifficulty easy sampleDb) =
     [(10, True), (11, False)] \<and>
   filter (\<lambda>a. fst (snd a) = 10)
     (assignmentList (snd (generateAssignments sampleHash bytes44 99 sampleDb))) =
     [(1, 10, None, not_started), (2, 10, None, not_started),
      (3, 10, None, not_started), (4, 10, None, not_started)]"
  by (simp add: sample_run_assignments)
     (simp add: getChallengesByDifficulty_def sampleDb_def sampleChallenges_def mkChallenge_def)

text \<open>
  Claim C9. For every assignment created by \<open>generateAssignments\<close>, a target that is present
  differs from the user of the assignment. The call starts by deleting every assignment, so
  the table afterwards holds exactly the assignments the call created, whether it returns
  or raises later. The one exception is a delete the database refuses because a proof refers
  to an assignment: the call then raises at once, creates nothing and leaves the database
  as it was.
\<close>

theorem target_is_never_the_assignee:
  "(assignmentsReferenced db \<longrightarrow>
      snd (generateAssignments sha256hex rnd adminId db) = db) \<and>
   (\<not> assignmentsReferenced db \<longrightarrow>
      (\<forall>a\<in>set (assignments (snd (generateAssignments sha256hex rnd adminId db))).
         \<forall>t. a_targetUserId a = Some t \<longrightarrow> t \<noteq> a_userId a))"
  using generateAssignments_fresh[of db sha256hex rnd adminId]
    generateAssignments_refused_assignments[of db sha256hex rnd adminId]
  by (auto simp: freshAssignment_def)

theorem target_is_never_the_assignee_witness:
  "\<not> assignmentsReferenced sampleDb \<and>
   assignments (snd (generateAssignments sampleHash bytes44 99 sampleDb)) ! 3 \<in>
     set (assignments (snd (generateAssignments sampleHash bytes44 99 sampleDb))) \<and>
   a_userId (assignments (snd (generateAssignments sampleHash bytes44 99 sampleDb)) ! 3) = 1 \<and>
   a_targetUserId (assignments (snd (generateAssignments sampleHash bytes44 99 sampleDb)) ! 3) =
     Some 2 \<and>
   (2::nat) \<noteq> a_userId (assignments (snd (generateAssignments sampleHash bytes44 99 sampleDb)) ! 3) \<and>
   assignmentsReferenced provenDb \<and>
   snd (generateAssignments sampleHash bytes44 99 provenDb) = provenDb"
proof -
  let ?xs = "assignments (snd (generateAssignments sampleHash bytes44 99 sampleDb))"
  have nr: "\<not> assignmentsReferenced sampleDb"
    using sample_accepts(1) by (simp add: databaseAccepts_def)
  have r: "assignmentsReferenced provenDb"
    by (simp add: assignmentsReferenced_def provenDb_def sampleDb_def)
  have "length (assignmentList (snd (generateAssignments sampleHash bytes44 99 sampleDb))) = 24"
    by (simp add: sample_run_assignments)
  then have len: "length ?xs = 24"
    by (simp add: assignmentList_def)
  have "assignmentList (snd (generateAssignments sampleHash bytes44 99 sampleDb)) ! 3 =
          (1, 20, Some 2, not_started)"
    by (simp add: sample_run_assignments)
  then have el: "a_userId (?xs ! 3) = 1 \<and> a_targetUserId (?xs ! 3) = Some 2"
    using len by (simp add: assignmentList_def)
  have mem: "?xs ! 3 \<in> set ?xs"
    using len by simp
  with target_is_never_the_assignee[of sampleDb sampleHash bytes44 99] nr
  have "\<forall>t. a_targetUserId (?xs ! 3) = Some t \<longrightarrow> t \<noteq> a_userId (?xs ! 3)"
    by blast
  moreover from target_is_never_the_assignee[of provenDb sampleHash bytes44 99] r
  have "snd (generateAssignments sampleHash bytes44 99 provenDb) = provenDb"
    by blast
  ultimately show ?thesis using el mem nr r by simp
qed

text \<open>
  Claim C10. Every assignment created by \<open>generateAssignments\<close> has the status
  \<open>not_started\<close>: the table after the call holds exactly the created assignments, unless the
  database refuses the delete of the old ones, and then the call creates nothing and
  leaves the database as it was.
\<close>

theorem created_assignments_not_started:
  "(assignmentsReferenced db \<longrightarrow>
      snd (generateAssignments sha256hex rnd adminId db) = db) \<and>
   (\<not> assignmentsReferenced db \<longrightarrow>
      (\<forall>a\<in>set (assignments (snd (generateAssignments sha256hex rnd adminId db))).
         a_status a = not_started))"
  using generateAssignments_fresh[of db sha256hex rnd adminId]
    generateAssignments_refused_assignments[of db sha256hex rnd adminId]
  by (auto simp: freshAssignment_def)

theorem created_assignments_not_started_witness:
  "\<not> assignmentsReferenced sampleDb \<and>
   map a_status (assignments sampleDb) = [completed] \<and>
   assignments (snd (generateAssignments sampleHash bytes44 99 sampleDb)) ! 0 \<in>
     set (assignments (snd (generateAssignments sampleHash bytes44 99 sampleDb))) \<and>
   a_status (assignments (snd (generateAssignments sampleHash bytes44 99 sampleDb)) ! 0) =
     not_started \<and>
   assignmentsReferenced provenDb \<and>
   snd (generateAssignments sampleHash bytes44 99 provenDb) = provenDb"
proof -
  let ?xs = "assignments (snd (generateAssignments sampleHash bytes44 99 sampleDb))"
  have nr: "\<not> assignmentsReferenced sampleDb"
    using sample_accepts(1) by (simp add: databaseAccepts_def)
  have r: "assignmentsReferenced provenDb"
    by (simp add: assignmentsReferenced_def provenDb_def sampleDb_def)
  have "length (assignmentList (snd (generateAssignments sampleHash bytes44 99 sampleDb))) = 24"
    by (simp add: sample_run_assignments)
  then have len: "length ?xs = 24"
    by (simp add: assignmentList_def)
  then have mem: "?xs ! 0 \<in> set ?xs"
    by simp
  with created_assignments_not_started[of sampleDb sampleHash bytes44 99] nr
  have "a_status (?xs ! 0) = not_started"
    by blast
  moreover from created_assignments_not_started[of provenDb sampleHash bytes44 99] r
  have "snd (generateAssignments sampleHash bytes44 99 provenDb) = provenDb"
    by blast
  moreover have "map a_status (assignments sampleDb) = [completed]"
    by (simp add: sampleDb_def)
  ultimately show ?thesis using mem nr r by simp
qed

section \<open>Seed records\<close>

text \<open>
  Claim C7 says that after any N successive calls exactly one stored seed record is active.
  The call deactivates the stored records and then inserts its own, with no transaction
  around the two statements, and \<open>generated_by\<close> is a foreign key to the users: a call made
  with an administrator that is no stored user leaves every record inactive and stores
  none. After a first call by user 99 and a second by 7, who is no user, one record is
  stored and it is inactive.
\<close>

theorem no_active_seed_counterexample:
  "assignmentSeeds (sampleDb\<lparr>assignmentSeeds := []\<rparr>) = [] \<and>
   7 \<notin> u_id ` set (users sampleDb) \<and>
   map s_isActive (assignmentSeeds (generateMany sampleHash [(bytes44, 99), (bytes44, 7)]
       (sampleDb\<lparr>assignmentSeeds := []\<rparr>))) = [False]"
proof -
  let ?d0 = "sampleDb\<lparr>assignmentSeeds := []\<rparr>"
  let ?d1 = "snd (generateAssignments sampleHash bytes44 99 ?d0)"
  have s1: "map s_isActive (assignmentSeeds ?d1) = [True]"
    by (simp add: generateAssignments_seeds[OF sample_accepts(4)] storedSeedRecord_def)
  have up: "users ?d1 = users ?d0" "proofs ?d1 = proofs ?d0"
    using generateAssignments_users_proofs[of sampleHash bytes44 99 ?d0] by simp_all
  have n7: "7 \<notin> u_id ` set (users sampleDb)"
    by (simp add: sampleDb_def mkUser_def)
  have "\<not> assignmentsReferenced ?d1" "\<not> teamsReferenced ?d1" "7 \<notin> u_id ` set (users ?d1)"
    using up n7 by (simp_all add: assignmentsReferenced_def teamsReferenced_def sampleDb_def)
  moreover have "length (assignmentSeeds ?d1) = 1"
    using arg_cong[OF s1, of length] by simp
  ultimately
  have "map s_isActive (assignmentSeeds (snd (generateAssignments sampleHash bytes44 7 ?d1))) =
          [False]"
    using generateAssignments_refused_seed[of ?d1 7 sampleHash bytes44]
    by (simp add: o_def map_replicate_const)
  with n7 show ?thesis by simp
qed

text \<open>
  Claim C7 as amended. Start from a database with no seed record in which no proof refers to
  an assignment or to a team, and make N successive calls, N at least 1, each with an
  administrator that is a stored user, and each returning or raising. Then N seed records
  are stored, in the order of the calls and each with the seed of its call; the last one,
  the most recent, is active and the N - 1 before it are inactive.
\<close>

theorem single_active_seed:
  assumes "assignmentSeeds db = []" and "calls \<noteq> []"
    and "proofsReferNothing db"
    and "\<forall>c\<in>set calls. snd c \<in> u_id ` set (users db)"
  shows "map s_isActive (assignmentSeeds (generateMany sha256hex calls db)) =
           replicate (length calls - 1) False @ [True] \<and>
         map s_seed (assignmentSeeds (generateMany sha256hex calls db)) =
           map (\<lambda>c. toStringHex (fst c)) calls"
  using generateMany_seeds[OF assms(2,3,4), of sha256hex] assms(1) by simp

theorem single_active_seed_witness:
  "assignmentSeeds (sampleDb\<lparr>assignmentSeeds := []\<rparr>) = [] \<and>
   [(bytes44, 99), (bytesFF, 99), (bytes44, 4)] \<noteq> [] \<and>
   proofsReferNothing (sampleDb\<lparr>assignmentSeeds := []\<rparr>) \<and>
   99 \<in> u_id ` set (users (sampleDb\<lparr>assignmentSeeds := []\<rparr>)) \<and>
   4 \<in> u_id ` set (users (sampleDb\<lparr>assignmentSeeds := []\<rparr>)) \<and>
   map s_isActive (assignmentSeeds (generateMany sampleHash
       [(bytes44, 99), (bytesFF, 99), (bytes44, 4)] (sampleDb\<lparr>assignmentSeeds := []\<rparr>))) =
     [False, False, True]"
proof -
  let ?d0 = "sampleDb\<lparr>assignmentSeeds := []\<rparr>"
  have h1: "assignmentSeeds ?d0 = []" by simp
  have h2: "[(bytes44, 99), (bytesFF, 99), (bytes44, 4::nat)] \<noteq> []" by simp
  have u: "99 \<in> u_id ` set (users ?d0)" "4 \<in> u_id ` set (users ?d0)"
    by (simp_all add: sampleDb_def mkUser_def)
  then have h4: "\<forall>c\<in>set [(bytes44, 99), (bytesFF, 99), (bytes44, 4::nat)].
                   snd c \<in> u_id ` set (users ?d0)"
    by simp
  from single_active_seed[OF h1 h2 sample_accepts(5) h4, of sampleHash]
  have "map s_isActive (assignmentSeeds (generateMany sampleHash
          [(bytes44, 99), (bytesFF, 99), (bytes44, 4)] ?d0)) = [False, False, True]"
    by (simp add: numeral_2_eq_2)
  with h1 h2 sample_accepts(5) u show ?thesis by blast
qed

section \<open>Missing categories\<close>

text \<open>
  Claim C6 says that generation fails with a ConfigurationError, before any mutation, when
  a category has no active challenge. The code has no such error and never looks at the
  sizes of the pools. With no active team challenge the call of the sample administrator
  raises, but only after the teams are deleted and the seed table is changed.
\<close>

theorem empty_team_category_counterexample:
  "getChallengesByDifficulty team noTeamChallengeDb = [] \<and>
   teams noTeamChallengeDb \<noteq> [] \<and>
   teams (snd (generateAssignments sampleHash bytes44 99 noTeamChallengeDb)) = [] \<and>
   map s_isActive (assignmentSeeds noTeamChallengeDb) = [True] \<and>
   map s_isActive
     (assignmentSeeds (snd (generateAssignments sampleHash bytes44 99 noTeamChallengeDb))) =
     [False, True]"
proof -
  have "map s_isActive
     (assignmentSeeds (snd (generateAssignments sampleHash bytes44 99 noTeamChallengeDb))) =
     [False, True]"
    by (simp add: generateAssignments_seeds[OF noTeam_run(5)] storedSeedRecord_def)
       (simp add: noTeamChallengeDb_def sampleDb_def)
  moreover have "teams (snd (generateAssignments sampleHash bytes44 99 noTeamChallengeDb)) = []"
    by (simp add: generateAssignments_no_team_challenge[OF noTeam_run(5,1,2)])
  ultimately show ?thesis using noTeam_run by simp
qed

text \<open>
  Claim C6 as amended. \<open>generateAssignments\<close> has no ConfigurationError and checks no category.

  An empty easy, medium or hard category raises nothing. Whatever these three pools hold,
  the call returns normally when the database accepts its statements, every draw of the
  seed is below 1, the team category has an active challenge, and there are at least two
  non-admin participants with unique ids; every participant then has as many assignments
  as the pools allow, at most two from each, so none from an empty pool.

  An empty team category, with at least one non-admin participant, makes a call that the
  database accepts raise a TypeError, after the mutation: all assignments, team memberships
  and teams are deleted, the stored seed records are deactivated and the new one is stored
  as active, and nothing else is created.
\<close>

theorem categories_are_not_checked:
  "(databaseAccepts adminId db \<and> drawsBelowOne (toStringHex rnd) \<and>
    getChallengesByDifficulty team db \<noteq> [] \<and> distinct (map u_id (users db)) \<and>
    2 \<le> length (filter (\<lambda>u. u_isAdmin u = False) (users db)) \<longrightarrow>
      raised (generateAssignments sha256hex rnd adminId db) = None \<and>
      (\<forall>u\<in>set (users db). u_isAdmin u = False \<longrightarrow>
         length (challengesOf (u_id u) (snd (generateAssignments sha256hex rnd adminId db))) =
           min 2 (length (getChallengesByDifficulty easy db)) +
           min 2 (length (getChallengesByDifficulty medium db)) +
           min 2 (length (getChallengesByDifficulty hard db)))) \<and>
   (databaseAccepts adminId db \<and> getChallengesByDifficulty team db = [] \<and>
    filter (\<lambda>u. u_isAdmin u = False) (users db) \<noteq> [] \<longrightarrow>
      generateAssignments sha256hex rnd adminId db =
        (Inl TypeError, afterSeedInsert sha256hex rnd adminId db))"
proof (intro conjI impI ballI)
  assume h: "databaseAccepts adminId db \<and> drawsBelowOne (toStringHex rnd) \<and>
    getChallengesByDifficulty team db \<noteq> [] \<and> distinct (map u_id (users db)) \<and>
    2 \<le> length (filter (\<lambda>u. u_isAdmin u = False) (users db))"
  then show ret: "raised (generateAssignments sha256hex rnd adminId db) = None"
    using generateAssignments_returns by blast
  fix u assume u: "u \<in> set (users db)" "u_isAdmin u = False"
  from h have du: "distinct (map u_id (users db))" by simp
  from generateAssignments_challengesOf[OF ret du u]
  obtain E M H where "mset E = mset (getChallengesByDifficulty easy db)"
    "mset M = mset (getChallengesByDifficulty medium db)"
    "mset H = mset (getChallengesByDifficulty hard db)"
    "challengesOf (u_id u) (snd (generateAssignments sha256hex rnd adminId db)) =
       map c_id (take 2 E @ take 2 M @ take 2 H)"
    by blast
  then show "length (challengesOf (u_id u) (snd (generateAssignments sha256hex rnd adminId db))) =
           min 2 (length (getChallengesByDifficulty easy db)) +
           min 2 (length (getChallengesByDifficulty medium db)) +
           min 2 (length (getChallengesByDifficulty hard db))"
    using mset_eq_length[of E] mset_eq_length[of M] mset_eq_length[of H]
    by (simp add: min.commute)
next
  assume "databaseAccepts adminId db \<and> getChallengesByDifficulty team db = [] \<and>
    filter (\<lambda>u. u_isAdmin u = False) (users db) \<noteq> []"
  then show "generateAssignments sha256hex rnd adminId db =
        (Inl TypeError, afterSeedInsert sha256hex rnd adminId db)"
    using generateAssignments_no_team_challenge by blast
qed

theorem categories_are_not_checked_witness:
  "getChallengesByDifficulty easy noEasyDb = [] \<and>
   databaseAccepts 99 noEasyDb \<and> drawsBelowOne (toStringHex bytes44) \<and>
   getChallengesByDifficulty team noEasyDb \<noteq> [] \<and> distinct (map u_id (users noEasyDb)) \<and>
   2 \<le> length (filter (\<lambda>u. u_isAdmin u = False) (users noEasyDb)) \<and>
   mkUser 3 False \<in> set (users noEasyDb) \<and>
   raised (generateAssignments sampleHash bytes44 99 noEasyDb) = None \<and>
   length (challengesOf (u_id (mkUser 3 False))
             (snd (generateAssignments sampleHash bytes44 99 noEasyDb))) = 4 \<and>
   databaseAccepts 99 noTeamChallengeDb \<and>
   getChallengesByDifficulty team noTeamChallengeDb = [] \<and>
   filter (\<lambda>u. u_isAdmin u = False) (users noTeamChallengeDb) \<noteq> [] \<and>
   generateAssignments sampleHash bytes44 99 noTeamChallengeDb =
     (Inl TypeError, afterSeedInsert sampleHash bytes44 99 noTeamChallengeDb)"
proof -
  have e: "getChallengesByDifficulty easy noEasyDb = []"
    and m: "length (getChallengesByDifficulty medium noEasyDb) = 2"
    and h: "length (getChallengesByDifficulty hard noEasyDb) = 2"
    and t: "getChallengesByDifficulty team noEasyDb \<noteq> []"
    and d: "distinct (map u_id (users noEasyDb))"
    and two: "2 \<le> length (filter (\<lambda>u. u_isAdmin u = False) (users noEasyDb))"
    and u: "mkUser 3 False \<in> set (users noEasyDb)" "u_isAdmin (mkUser 3 False) = False"
    by (simp_all add: noEasyDb_def sampleDb_def sampleChallenges_def mkUser_def mkChallenge_def
          getChallengesByDifficulty_def)
  note inst = categories_are_not_checked[of 99 noEasyDb bytes44 sampleHash]
  from inst sample_accepts(2) drawsBelowOne_bytes44 t d two
  have r: "raised (generateAssignments sampleHash bytes44 99 noEasyDb) = None"
    by blast
  from inst sample_accepts(2) drawsBelowOne_bytes44 t d two u
  have "length (challengesOf (u_id (mkUser 3 False))
             (snd (generateAssignments sampleHash bytes44 99 noEasyDb))) =
           min 2 (length (getChallengesByDifficulty easy noEasyDb)) +
           min 2 (length (getChallengesByDifficulty medium noEasyDb)) +
           min 2 (length (getChallengesByDifficulty hard noEasyDb))"
    by blast
  with e m h have c: "length (challengesOf (u_id (mkUser 3 False))
             (snd (generateAssignments sampleHash bytes44 99 noEasyDb))) = 4"
    by simp
  from categories_are_not_checked[of 99 noTeamChallengeDb bytes44 sampleHash] noTeam_run(5,1,2)
  have b: "generateAssignments sampleHash bytes44 99 noTeamChallengeDb =
     (Inl TypeError, afterSeedInsert sampleHash bytes44 99 noTeamChallengeDb)"
    by blast
  from e sample_accepts(2) drawsBelowOne_bytes44 t d two u(1) r c noTeam_run(5,1,2) b
  show ?thesis by blast
qed

section \<open>Quotas\<close>

text \<open>
  Claim C5 says that non-empty pools are enough for exactly two assignments per category.
  A pool with a single challenge gives one: \<open>slice(0, 2)\<close> takes what there is.
\<close>

theorem single_easy_challenge_counterexample:
  "getChallengesByDifficulty easy oneEasyDb \<noteq> [] \<and>
   getChallengesByDifficulty medium oneEasyDb \<noteq> [] \<and>
   getChallengesByDifficulty hard oneEasyDb \<noteq> [] \<and>
   getChallengesByDifficulty team oneEasyDb \<noteq> [] \<and>
   raised (generateAssignments sampleHash bytes44 99 oneEasyDb) = None \<and>
   challengesOfIn 1 (getChallengesByDifficulty easy oneEasyDb)
     (snd (generateAssignments sampleHash bytes44 99 oneEasyDb)) = [10]"
  by (simp add: run_defs seededRandom_bytes44 oneEasyDb_def challengesOfIn_def challengesOf_def)

text \<open>
  Claim C5 as amended. Let the identifiers of the users and of the challenges be unique (they
  are primary keys), let each of the easy, medium and hard pools hold at least two active
  challenges, and let the call return without raising. Then every non-admin participant has
  exactly two assignments from the easy pool, two from the medium pool, two from the hard
  pool and no other, and no challenge identifier occurs twice among them.
\<close>

theorem two_per_category:
  assumes "raised (generateAssignments sha256hex rnd adminId db) = None"
    and "distinct (map u_id (users db))"
    and "distinct (map c_id (challenges db))"
    and "2 \<le> length (getChallengesByDifficulty easy db)"
    and "2 \<le> length (getChallengesByDifficulty medium db)"
    and "2 \<le> length (getChallengesByDifficulty hard db)"
    and "u \<in> set (users db)" and "u_isAdmin u = False"
  shows "length (challengesOfIn (u_id u) (getChallengesByDifficulty easy db)
                  (snd (generateAssignments sha256hex rnd adminId db))) = 2 \<and>
         length (challengesOfIn (u_id u) (getChallengesByDifficulty medium db)
                  (snd (generateAssignments sha256hex rnd adminId db))) = 2 \<and>
         length (challengesOfIn (u_id u) (getChallengesByDifficulty hard db)
                  (snd (generateAssignments sha256hex rnd adminId db))) = 2 \<and>
         length (challengesOf (u_id u) (snd (generateAssignments sha256hex rnd adminId db))) = 6 \<and>
         distinct (challengesOf (u_id u) (snd (generateAssignments sha256hex rnd adminId db)))"
proof -
  from generateAssignments_challengesOf[OF assms(1,2,7,8)]
  obtain E M H where "mset E = mset (getChallengesByDifficulty easy db)"
    "mset M = mset (getChallengesByDifficulty medium db)"
    "mset H = mset (getChallengesByDifficulty hard db)"
    "challengesOf (u_id u) (snd (generateAssignments sha256hex rnd adminId db)) =
       map c_id (take 2 E @ take 2 M @ take 2 H)"
    by blast
  from quota_of_user[OF assms(3,4,5,6) this] show ?thesis .
qed

theorem two_per_category_witness:
  "raised (generateAssignments sampleHash bytes44 99 sampleDb) = None \<and>
   distinct (map u_id (users sampleDb)) \<and>
   distinct (map c_id (challenges sampleDb)) \<and>
   2 \<le> length (getChallengesByDifficulty easy sampleDb) \<and>
   2 \<le> length (getChallengesByDifficulty medium sampleDb) \<and>
   2 \<le> length (getChallengesByDifficulty hard sampleDb) \<and>
   mkUser 3 False \<in> set (users sampleDb) \<and>
   length (challengesOfIn (u_id (mkUser 3 False)) (getChallengesByDifficulty easy sampleDb)
            (snd (generateAssignments sampleHash bytes44 99 sampleDb))) = 2 \<and>
   length (challengesOfIn (u_id (mkUser 3 False)) (getChallengesByDifficulty medium sampleDb)
            (snd (generateAssignments sampleHash bytes44 99 sampleDb))) = 2 \<and>
   length (challengesOfIn (u_id (mkUser 3 False)) (getChallengesByDifficulty hard sampleDb)
            (snd (generateAssignments sampleHash bytes44 99 sampleDb))) = 2 \<and>
   length (challengesOf (u_id (mkUser 3 False))
            (snd (generateAssignments sampleHash bytes44 99 sampleDb))) = 6 \<and>
   distinct (challengesOf (u_id (mkUser 3 False))
            (snd (generateAssignments sampleHash bytes44 99 sampleDb)))"
proof -
  have h2: "distinct (map u_id (users sampleDb))"
    and h3: "distinct (map c_id (challenges sampleDb))"
    and h4: "2 \<le> length (getChallengesByDifficulty easy sampleDb)"
    and h5: "2 \<le> length (getChallengesByDifficulty medium sampleDb)"
    and h6: "2 \<le> length (getChallengesByDifficulty hard sampleDb)"
    and h7: "mkUser 3 False \<in> set (users sampleDb)"
    and h8: "u_isAdmin (mkUser 3 False) = False"
    by (simp_all add: sampleDb_def sampleChallenges_def mkUser_def mkChallenge_def
          getChallengesByDifficulty_def)
  from two_per_category[OF sample_run_raised h2 h3 h4 h5 h6 h7 h8]
    sample_run_raised h2 h3 h4 h5 h6 h7
  show ?thesis by blast
qed

section \<open>Determinism\<close>

text \<open>
  Claim C4. Take two runs with the same random buffer (hence the same seed string), on
  databases with the same list of non-admin participants and the same active challenges in
  each of the four categories; everything else may differ: the other tables, the
  administrator, the hash function, the identifiers the database draws.

  A run raises a DatabaseError exactly when the database refuses one of the statements that
  precede the algorithm (a proof refers to an assignment or to a team to delete, or the
  administrator is no stored user); the shuffle has not started then. When the database
  accepts both runs, both return, or both raise; the teams (name, mission, team challenge,
  members in order) are the same, and so are the assignments (user, challenge, target,
  status).
\<close>

theorem generation_is_deterministic:
  assumes "filter (\<lambda>u. u_isAdmin u = False) (users dbA) =
           filter (\<lambda>u. u_isAdmin u = False) (users dbB)"
    and "getChallengesByDifficulty easy dbA = getChallengesByDifficulty easy dbB"
    and "getChallengesByDifficulty medium dbA = getChallengesByDifficulty medium dbB"
    and "getChallengesByDifficulty hard dbA = getChallengesByDifficulty hard dbB"
    and "getChallengesByDifficulty team dbA = getChallengesByDifficulty team dbB"
  shows "(raised (generateAssignments hashA rnd adminA dbA) = Some DatabaseError \<longleftrightarrow>
            \<not> databaseAccepts adminA dbA) \<and>
         (raised (generateAssignments hashB rnd adminB dbB) = Some DatabaseError \<longleftrightarrow>
            \<not> databaseAccepts adminB dbB) \<and>
         (databaseAccepts adminA dbA \<and> databaseAccepts adminB dbB \<longrightarrow>
            raised (generateAssignments hashA rnd adminA dbA) =
              raised (generateAssignments hashB rnd adminB dbB) \<and>
            teamComposition (snd (generateAssignments hashA rnd adminA dbA)) =
              teamComposition (snd (generateAssignments hashB rnd adminB dbB)) \<and>
            assignmentList (snd (generateAssignments hashA rnd adminA dbA)) =
              assignmentList (snd (generateAssignments hashB rnd adminB dbB)))"
proof -
  have main: "raised (generateAssignments hashA rnd adminA dbA) =
           raised (generateAssignments hashB rnd adminB dbB) \<and>
         teamComposition (snd (generateAssignments hashA rnd adminA dbA)) =
           teamComposition (snd (generateAssignments hashB rnd adminB dbB)) \<and>
         assignmentList (snd (generateAssignments hashA rnd adminA dbA)) =
           assignmentList (snd (generateAssignments hashB rnd adminB dbB))"
    if accA: "databaseAccepts adminA dbA" and accB: "databaseAccepts adminB dbB"
  proof -
    let ?seed = "toStringHex rnd"
    let ?U = "filter (\<lambda>u. u_isAdmin u = False) (users dbB)"
    let ?E = "getChallengesByDifficulty easy dbB"
    let ?M = "getChallengesByDifficulty medium dbB"
    let ?H = "getChallengesByDifficulty hard dbB"
    let ?T = "getChallengesByDifficulty team dbB"
    let ?dA = "afterSeedInsert hashA rnd adminA dbA"
    let ?dB = "afterSeedInsert hashB rnd adminB dbB"
    note unfA = generateAssignments_unfold[OF accA, of hashA rnd]
    note unfB = generateAssignments_unfold[OF accB, of hashB rnd]
    define delta where "delta = int (nextId dbB) - int (nextId dbA)"
    have rel0: "sameUpToIds delta ?dA ?dB"
      by (simp add: sameUpToIds_def idRel_def assignmentList_def delta_def)
    obtain a s1 where sh: "shuffleLoop ?seed (length ?U - 1) (map Some ?U, None) 0 = (a, s1)"
      by (cases "shuffleLoop ?seed (length ?U - 1) (map Some ?U, None) 0")
    have same: "raised (x, dA) = raised (x, dB) \<and> teamComposition dA = teamComposition dB \<and>
                assignmentList dA = assignmentList dB"
      if "sameUpToIds delta dA dB" for x dA dB
      using that sameUpToIds_teamComposition[OF that] by (simp add: raised_def sameUpToIds_def)
    show ?thesis
    proof (cases "teamLoop (fst a) 0 []")
      case (Inl err)
      have "generateAssignments hashA rnd adminA dbA = (Inl err, ?dA)"
        using sh Inl assms(1-5) by (simp add: unfA Let_def)
      moreover have "generateAssignments hashB rnd adminB dbB = (Inl err, ?dB)"
        using sh Inl by (simp add: unfB Let_def)
      ultimately show ?thesis using same[OF rel0, of "Inl err"] by (simp add: raised_def)
    next
      case (Inr tas)
      obtain eA sA dA where ctA: "createTeams ?seed ?T tas 0 s1 ?dA = (eA, sA, dA)"
        by (cases "createTeams ?seed ?T tas 0 s1 ?dA")
      obtain eB sB dB where ctB0: "createTeams ?seed ?T tas 0 s1 ?dB = (eB, sB, dB)"
        by (cases "createTeams ?seed ?T tas 0 s1 ?dB")
      from createTeams_same[OF rel0 ctA ctB0]
      have "eB = eA" "sB = sA" and rel1: "sameUpToIds delta dA dB" by simp_all
      with ctB0 have ctB: "createTeams ?seed ?T tas 0 s1 ?dB = (eA, sA, dB)" by simp
      show ?thesis
      proof (cases eA)
        case (Some err)
        have "generateAssignments hashA rnd adminA dbA = (Inl err, dA)"
          using sh Inr ctA Some assms(1-5) by (simp add: unfA Let_def)
        moreover have "generateAssignments hashB rnd adminB dbB = (Inl err, dB)"
          using sh Inr ctB Some by (simp add: unfB Let_def)
        ultimately show ?thesis using same[OF rel1, of "Inl err"] by (simp add: raised_def)
      next
        case None
        obtain fA tA xA where auA: "assignUsers ?seed ?U ?E ?M ?H ?U sA dA = (fA, tA, xA)"
          by (cases "assignUsers ?seed ?U ?E ?M ?H ?U sA dA")
        obtain fB tB xB where auB0: "assignUsers ?seed ?U ?E ?M ?H ?U sA dB = (fB, tB, xB)"
          by (cases "assignUsers ?seed ?U ?E ?M ?H ?U sA dB")
        from assignUsers_same[OF rel1 auA auB0]
        have "fB = fA" "tB = tA" and rel2: "sameUpToIds delta xA xB" by simp_all
        with auB0 have auB: "assignUsers ?seed ?U ?E ?M ?H ?U sA dB = (fA, tA, xB)" by simp
        show ?thesis
        proof (cases fA)
          case (Some err)
          have "generateAssignments hashA rnd adminA dbA = (Inl err, xA)"
            using sh Inr ctA None auA Some assms(1-5) by (simp add: unfA Let_def)
          moreover have "generateAssignments hashB rnd adminB dbB = (Inl err, xB)"
            using sh Inr ctB None auB Some by (simp add: unfB Let_def)
          ultimately show ?thesis using same[OF rel2, of "Inl err"] by (simp add: raised_def)
        next
          case None2: None
          let ?auditA = "createAuditLogEntry generate_assignments adminA
                           (auditDetails (length ?U)) (Some (hashA ?seed)) xA"
          let ?auditB = "createAuditLogEntry generate_assignments adminB
                           (auditDetails (length ?U)) (Some (hashB ?seed)) xB"
          have rel3: "sameUpToIds delta ?auditA ?auditB"
            using rel2
            by (simp add: sameUpToIds_def assignmentList_def idRel_Suc)
          have "raised (generateAssignments hashA rnd adminA dbA) = None \<and>
                snd (generateAssignments hashA rnd adminA dbA) = ?auditA"
            using sh Inr ctA None auA None2 assms(1-5) by (simp add: unfA Let_def raised_def)
          moreover have "raised (generateAssignments hashB rnd adminB dbB) = None \<and>
                snd (generateAssignments hashB rnd adminB dbB) = ?auditB"
            using sh Inr ctB None auB None2 by (simp add: unfB Let_def raised_def)
          ultimately show ?thesis
            using sameUpToIds_teamComposition[OF rel3] rel3 by (simp add: sameUpToIds_def)
        qed
      qed
    qed
  qed
  show ?thesis
    using main raised_DatabaseError_iff[of hashA rnd adminA dbA]
      raised_DatabaseError_iff[of hashB rnd adminB dbB]
    by blast
qed

theorem generation_is_deterministic_witness:
  "filter (\<lambda>u. u_isAdmin u = False) (users sampleDb) =
     filter (\<lambda>u. u_isAdmin u = False) (users otherDb) \<and>
   getChallengesByDifficulty easy sampleDb = getChallengesByDifficulty easy otherDb \<and>
   getChallengesByDifficulty medium sampleDb = getChallengesByDifficulty medium otherDb \<and>
   getChallengesByDifficulty hard sampleDb = getChallengesByDifficulty hard otherDb \<and>
   getChallengesByDifficulty team sampleDb = getChallengesByDifficulty team otherDb \<and>
   databaseAccepts 99 sampleDb \<and> databaseAccepts 98 otherDb \<and>
   nextId sampleDb \<noteq> nextId otherDb \<and>
   raised (generateAssignments sampleHash bytes44 99 sampleDb) =
     raised (generateAssignments (\<lambda>s. s) bytes44 98 otherDb) \<and>
   teamComposition (snd (generateAssignments sampleHash bytes44 99 sampleDb)) =
     teamComposition (snd (generateAssignments (\<lambda>s. s) bytes44 98 otherDb)) \<and>
   assignmentList (snd (generateAssignments sampleHash bytes44 99 sampleDb)) =
     assignmentList (snd (generateAssignments (\<lambda>s. s) bytes44 98 otherDb)) \<and>
   raised (generateAssignments sampleHash bytes44 99 sampleDb) \<noteq> Some DatabaseError"
proof -
  have h1: "filter (\<lambda>u. u_isAdmin u = False) (users sampleDb) =
              filter (\<lambda>u. u_isAdmin u = False) (users otherDb)"
    and h2: "getChallengesByDifficulty easy sampleDb = getChallengesByDifficulty easy otherDb"
    and h3: "getChallengesByDifficulty medium sampleDb = getChallengesByDifficulty medium otherDb"
    and h4: "getChallengesByDifficulty hard sampleDb = getChallengesByDifficulty hard otherDb"
    and h5: "getChallengesByDifficulty team sampleDb = getChallengesByDifficulty team otherDb"
    and h6: "nextId sampleDb \<noteq> nextId otherDb"
    by (simp_all add: otherDb_def sampleDb_def sampleChallenges_def mkUser_def mkChallenge_def
          getChallengesByDifficulty_def)
  from generation_is_deterministic[OF h1 h2 h3 h4 h5, of sampleHash bytes44 99 "\<lambda>s. s" 98]
    h1 h2 h3 h4 h5 h6 sample_accepts(1,3)
  show ?thesis by blast
qed

end
